theory Spec2Isabelle
  imports Complex_Main "HOL-Library.Word"
begin

section \<open>Values shared by the codec and the recorder\<close>

text \<open>
  Byte strings (Python \<open>bytes\<close>) are lists of 8-bit words; text (Python \<open>str\<close>) is
  \<open>string\<close>, read as the UTF-8 bytes of the text.  Python dictionaries are association
  lists in insertion order; a dictionary built from a literal has distinct keys, so
  \<open>map_of\<close> is the lookup.
\<close>

type_synonym bytes = "8 word list"

datatype pyval = PStr string | PInt int | PBool bool | PDict "(string \<times> pyval) list"

type_synonym pydict = "(string \<times> pyval) list"

text \<open>The exceptions the modelled code can meet; each one is a value.\<close>

datatype exn = DecodeError | BadGzipFile | ValueError | KeyError | TypeError | ConnectionClosed

text \<open>\<open>d.get(k, default)\<close>, \<open>k in d\<close> and \<open>d[k]\<close>.\<close>

definition dict_get :: "pydict \<Rightarrow> string \<Rightarrow> pyval \<Rightarrow> pyval" where
  "dict_get d k dflt = (case map_of d k of None \<Rightarrow> dflt | Some v \<Rightarrow> v)"

definition dict_in :: "string \<Rightarrow> pydict \<Rightarrow> bool" where
  "dict_in k d = (map_of d k \<noteq> None)"

definition subscript :: "pyval \<Rightarrow> string \<Rightarrow> exn + pyval" where
  "subscript v k =
     (case v of
        PDict d \<Rightarrow> (case map_of d k of None \<Rightarrow> Inl KeyError | Some x \<Rightarrow> Inr x)
      | _ \<Rightarrow> Inl TypeError)"

text \<open>Truth value of an optional string (\<open>None\<close> and \<open>''\<close> are false).\<close>

definition truthy :: "string option \<Rightarrow> bool" where
  "truthy v = (case v of None \<Rightarrow> False | Some t \<Rightarrow> t \<noteq> [])"

section \<open>Frame codec (\<open>src/douyin_protobuf.py\<close>)\<close>

text \<open>
  Modelled from the spec: the generated protobuf module \<open>dy_pb2\<close> is not among the
  sources.  The messages carry the fields of the data model (section 3 of the
  specification) that the code reads and writes: \<open>PushFrame\<close> has \<open>logid\<close> (uint64),
  \<open>payloadType\<close> and \<open>payload\<close>; \<open>Response\<close> has \<open>needAck\<close>, \<open>internalExt\<close> and
  \<open>messagesList\<close>; a message of the list has its method name and its payload.
\<close>

record PushFrame =
  logid :: "64 word"
  payloadType :: string
  payload :: bytes

record Message =
  msg_method :: string
  msg_payload :: bytes

record Response =
  needAck :: bool
  internalExt :: string
  messagesList :: "Message list"

text \<open>\<open>PushFrame()\<close>: every field at its protobuf default.\<close>

definition new_PushFrame :: PushFrame where
  "new_PushFrame = \<lparr>logid = 0, payloadType = [], payload = []\<rparr>"

text \<open>
  The library calls of the module are parameters of the model, so every theorem holds
  for any wire format and any decompressor, failing ones included:
  \<open>ParseFromString\<close> of the three message classes, \<open>gzip.decompress\<close>,
  \<open>SerializeToString\<close>, and \<open>Path(...).stem\<close> of the recorder.  For a chat message,
  \<open>ChatMessage_to_dict\<close> is \<open>ParseFromString\<close> followed by
  \<open>json_format.MessageToDict\<close>.  A call that raises returns \<open>Inl\<close>.
\<close>

record library =
  PushFrame_ParseFromString :: "bytes \<Rightarrow> exn + PushFrame"
  gzip_decompress :: "bytes \<Rightarrow> exn + bytes"
  Response_ParseFromString :: "bytes \<Rightarrow> exn + Response"
  ChatMessage_to_dict :: "bytes \<Rightarrow> exn + pydict"
  PushFrame_SerializeToString :: "PushFrame \<Rightarrow> bytes"
  Path_stem :: "string \<Rightarrow> string"

subsection \<open>\<open>parse_danmu_message\<close>\<close>

text \<open>The two dictionaries the function returns (lines 46-52 and 56-60).\<close>

definition chat_result :: "pydict \<Rightarrow> 64 word \<Rightarrow> bool \<Rightarrow> string \<Rightarrow> pydict" where
  "chat_result data lg need_ack internal_ext =
     [(''user'', dict_get data ''user'' (PDict [])),
      (''content'', dict_get data ''content'' (PStr [])),
      (''logid'', PInt (uint lg)),
      (''needAck'', PBool need_ack),
      (''internalExt'', PStr internal_ext)]"

definition ack_result :: "64 word \<Rightarrow> string \<Rightarrow> pydict" where
  "ack_result lg internal_ext =
     [(''needAck'', PBool True),
      (''logid'', PInt (uint lg)),
      (''internalExt'', PStr internal_ext)]"

text \<open>
  The loop over \<open>payloadPackage.messagesList\<close> (lines 39-52): \<open>Inr (Some d)\<close> is the
  \<open>return\<close> inside the loop, \<open>Inr None\<close> is the loop running to its end, \<open>Inl e\<close> an
  exception raised while the chat message is decoded.
\<close>

fun scan_messages :: "library \<Rightarrow> 64 word \<Rightarrow> Response \<Rightarrow> Message list \<Rightarrow> exn + pydict option" where
  "scan_messages lib lg payloadPackage [] = Inr None"
| "scan_messages lib lg payloadPackage (msg # rest) =
     (if msg_method msg = ''WebcastChatMessage'' then
        (case ChatMessage_to_dict lib (msg_payload msg) of
           Inl e \<Rightarrow> Inl e
         | Inr data \<Rightarrow>
             Inr (Some (chat_result data lg (needAck payloadPackage)
                          (internalExt payloadPackage))))
      else scan_messages lib lg payloadPackage rest)"

text \<open>The body of the \<open>try\<close> block (lines 28-62).\<close>

definition parse_body :: "library \<Rightarrow> bytes \<Rightarrow> exn + pydict option" where
  "parse_body lib message =
     (case PushFrame_ParseFromString lib message of
        Inl e \<Rightarrow> Inl e
      | Inr wssPackage \<Rightarrow>
          (case gzip_decompress lib (payload wssPackage) of
             Inl e \<Rightarrow> Inl e
           | Inr decompressed \<Rightarrow>
               (case Response_ParseFromString lib decompressed of
                  Inl e \<Rightarrow> Inl e
                | Inr payloadPackage \<Rightarrow>
                    (case scan_messages lib (logid wssPackage) payloadPackage
                            (messagesList payloadPackage) of
                       Inl e \<Rightarrow> Inl e
                     | Inr (Some d) \<Rightarrow> Inr (Some d)
                     | Inr None \<Rightarrow>
                         (if needAck payloadPackage
                          then Inr (Some (ack_result (logid wssPackage)
                                           (internalExt payloadPackage)))
                          else Inr None)))))"

text \<open>\<open>try: ... except Exception: return None\<close> (lines 27 and 64-66).\<close>

definition parse_danmu_message :: "library \<Rightarrow> bytes \<Rightarrow> pydict option" where
  "parse_danmu_message lib message =
     (case parse_body lib message of Inl e \<Rightarrow> None | Inr r \<Rightarrow> r)"

subsection \<open>\<open>create_ack_frame\<close> and \<open>create_heartbeat_frame\<close>\<close>

text \<open>
  The object built by lines 81-84, one assignment after the other.  Assigning an
  integer outside the uint64 range to \<open>logid\<close> raises \<open>ValueError\<close>.
\<close>

definition ack_frame_object :: "int \<Rightarrow> string \<Rightarrow> exn + PushFrame" where
  "ack_frame_object lg internal_ext =
     (let obj = new_PushFrame;
          obj = obj\<lparr>payloadType := ''ack''\<rparr>
      in if 0 \<le> lg \<and> lg < 2 ^ 64
         then (let obj = obj\<lparr>logid := word_of_int lg\<rparr>;
                   obj = obj\<lparr>payloadType := internal_ext\<rparr>
               in Inr obj)
         else Inl ValueError)"

text \<open>\<open>b'ack'\<close> and \<open>b'hb'\<close>, the values returned by the bare \<open>except\<close> clauses.\<close>

definition bytes_ack :: bytes where
  "bytes_ack = [0x61, 0x63, 0x6B]"

definition bytes_hb :: bytes where
  "bytes_hb = [0x68, 0x62]"

definition create_ack_frame :: "library \<Rightarrow> int \<Rightarrow> string \<Rightarrow> bytes" where
  "create_ack_frame lib lg internal_ext =
     (case ack_frame_object lg internal_ext of
        Inr obj \<Rightarrow> PushFrame_SerializeToString lib obj
      | Inl e \<Rightarrow> bytes_ack)"

definition create_heartbeat_frame :: "library \<Rightarrow> bytes" where
  "create_heartbeat_frame lib = PushFrame_SerializeToString lib (new_PushFrame\<lparr>payloadType := ''hb''\<rparr>)"

text \<open>
  The acknowledgement built inline by the demonstration script
  (\<open>only_danmu_fixed.py\<close>, lines 317-320), from the log id of the parsed frame.
\<close>

definition demo_ack_frame :: "64 word \<Rightarrow> string \<Rightarrow> PushFrame" where
  "demo_ack_frame lg internalExt' =
     (let obj = new_PushFrame;
          obj = obj\<lparr>payloadType := ''ack''\<rparr>;
          obj = obj\<lparr>logid := lg\<rparr>;
          obj = obj\<lparr>payloadType := internalExt'\<rparr>
      in obj)"

section \<open>Text files and formatting\<close>

text \<open>
  A file opened in text mode with the default \<open>newline=None\<close> is read with universal
  newlines: \<open>\r\n\<close> and a lone \<open>\r\<close> arrive as \<open>\n\<close>.  On writing, \<open>\n\<close> is written
  as the platform's line separator; the model takes the POSIX one, so text is stored
  as it is written.
\<close>

fun universal_newlines :: "string \<Rightarrow> string" where
  "universal_newlines [] = []"
| "universal_newlines (c # cs) =
     (if c = CHR 0x0D then
        (case cs of
           [] \<Rightarrow> [CHR 0x0A]
         | d # ds \<Rightarrow> if d = CHR 0x0A then CHR 0x0A # universal_newlines ds
                     else CHR 0x0A # universal_newlines cs)
      else c # universal_newlines cs)"

text \<open>Splitting after every \<open>\n\<close>, the line ends kept, as \<open>readlines()\<close> does.\<close>

fun split_lines :: "string \<Rightarrow> string list" where
  "split_lines [] = []"
| "split_lines (c # cs) =
     (if c = CHR 0x0A then [c] # split_lines cs
      else (case split_lines cs of [] \<Rightarrow> [[c]] | l # ls \<Rightarrow> (c # l) # ls))"

definition readlines :: "string \<Rightarrow> string list" where
  "readlines txt = split_lines (universal_newlines txt)"

text \<open>
  \<open>str.strip()\<close>: the white space of ASCII (tab, line feed, vertical tab, form feed,
  carriage return, the four separators 0x1C-0x1F and the space).  White space outside
  ASCII is several bytes of the text and is not stripped by the model.
\<close>

definition py_isspace :: "char \<Rightarrow> bool" where
  "py_isspace c = (c \<in> set [CHR 0x09, CHR 0x0A, CHR 0x0B, CHR 0x0C, CHR 0x0D,
                               CHR 0x1C, CHR 0x1D, CHR 0x1E, CHR 0x1F, CHR 0x20])"

definition py_strip :: "string \<Rightarrow> string" where
  "py_strip t = rev (dropWhile py_isspace (rev (dropWhile py_isspace t)))"

text \<open>Decimal digits of a natural number, and \<open>str\<close> of an integer.\<close>

fun digits :: "nat \<Rightarrow> string" where
  "digits n =
     (if n < 10 then [''0123456789'' ! n]
      else digits (n div 10) @ [''0123456789'' ! (n mod 10)])"

declare digits.simps [simp del]

definition str_int :: "int \<Rightarrow> string" where
  "str_int i = (if i < 0 then ''-'' @ digits (nat (- i)) else digits (nat i))"

text \<open>
  Times are Python floats; the model reads a float as the real number it denotes, so
  the rounding error of float arithmetic is outside it.  \<open>int(x)\<close> truncates towards
  zero.  \<open>round(x, 2)\<close> rounds to the nearest hundredth, ties to even, and keeps the sign
  of \<open>x\<close>; \<open>str\<close> of the result prints the integral part, a point and one or two
  decimals (\<open>3.14\<close>, \<open>3.1\<close>, \<open>3.0\<close>, \<open>-0.0\<close>), which is Python's output below
  \<open>10 ^ 16\<close>.
\<close>

definition py_int :: "real \<Rightarrow> int" where
  "py_int x = (if 0 \<le> x then \<lfloor>x\<rfloor> else \<lceil>x\<rceil>)"

definition round_half_even :: "real \<Rightarrow> int" where
  "round_half_even x =
     (let f = \<lfloor>x\<rfloor>; d = x - of_int f
      in if d < 1 / 2 then f else if 1 / 2 < d then f + 1
         else if even f then f else f + 1)"

definition str_round2 :: "real \<Rightarrow> string" where
  "str_round2 x =
     (let a = nat \<bar>round_half_even (x * 100)\<bar>
      in (if x < 0 then ''-'' else [])
         @ digits (a div 100) @ ''.''
         @ (if a mod 10 = 0 then digits (a mod 100 div 10)
            else digits (a mod 100 div 10) @ digits (a mod 10)))"

section \<open>The recorder (\<open>src/danmu_recorder.py\<close>)\<close>

text \<open>
  \<open>WebSocketApp\<close> of the websocket-client library, as far as the recorder uses it:
  \<open>close()\<close> clears \<open>keep_running\<close> and closes the socket if there is one;
  \<open>send\<close> raises on a closed socket.
\<close>

record WebSocketApp =
  url :: string
  keep_running :: bool
  sock_open :: bool
  sent :: "bytes list"

definition ws_close :: "WebSocketApp \<Rightarrow> WebSocketApp" where
  "ws_close w = w\<lparr>keep_running := False, sock_open := False\<rparr>"

definition ws_send :: "bytes \<Rightarrow> WebSocketApp \<Rightarrow> exn + WebSocketApp" where
  "ws_send frame w = (if sock_open w then Inr (w\<lparr>sent := sent w @ [frame]\<rparr>) else Inl ConnectionClosed)"

text \<open>
  The attributes of \<open>DouyinDanmuRecorder\<close> that the modelled methods read or write,
  and \<open>disk\<close>: the text files of \<open>output_dir\<close> by name (every file name the recorder
  uses is a stem followed by \<open>.xml\<close>, joined to \<open>output_dir\<close>).  \<open>start_time\<close> is held
  as the second it denotes.  Logging is not recorded, and file operations on an
  existing directory are taken to succeed.
\<close>

record recorder =
  room_id :: string
  room_real_id :: "pyval option"
  video_filename :: "string option"
  start_time :: "int option"
  start_time_t :: "int option"
  ws :: "WebSocketApp option"
  stop_signal :: bool
  danmu_amount :: int
  last_danmu_time :: real
  filename :: "string option"
  retry :: int
  max_retry :: int
  segment_index :: "int option"
  segment_start_time :: "real option"
  current_segment_file :: "string option"
  disk :: "string \<rightharpoonup> string"

text \<open>\<open>__init__\<close> (lines 47-67), on an output directory holding the files \<open>files\<close>.\<close>

definition new_recorder :: "string \<Rightarrow> string option \<Rightarrow> (string \<rightharpoonup> string) \<Rightarrow> recorder" where
  "new_recorder rid video files =
     \<lparr>room_id = rid, room_real_id = None, video_filename = video,
      start_time = None, start_time_t = None, ws = None, stop_signal = False,
      danmu_amount = 0, last_danmu_time = 0, filename = None, retry = 0, max_retry = 3,
      segment_index = Some 0, segment_start_time = None, current_segment_file = None,
      disk = files\<rparr>"

text \<open>What a method does besides changing the recorder.\<close>

datatype effect = RunForever string | SegmentChecker int | Sleep nat | CallStart

subsection \<open>File names and files\<close>

definition generate_filename :: "library \<Rightarrow> recorder \<Rightarrow> string option" where
  "generate_filename lib s =
     (if truthy (video_filename s)
      then Some (Path_stem lib (the (video_filename s)) @ ''.xml'')
      else None)"

definition set_video_filename :: "string option \<Rightarrow> recorder \<Rightarrow> recorder" where
  "set_video_filename video s = s\<lparr>video_filename := video\<rparr>"

definition xml_template :: string where
  \<open>xml_template =
     ''<?xml version="1.0" encoding="utf-8"?>\<newline>''
     @ ''<?xml-stylesheet type="text/xsl" href="#s"?>\<newline>''
     @ ''<i>\<newline>''
     @ ''</i>\<newline>''\<close>

definition create_danmu_file :: "string \<Rightarrow> recorder \<Rightarrow> recorder" where
  "create_danmu_file fname s = s\<lparr>disk := (disk s)(fname \<mapsto> xml_template)\<rparr>"

text \<open>\<open>close_danmu_file\<close> (lines 293-298) tests the name and the file and only logs.\<close>

definition close_danmu_file :: "string option \<Rightarrow> recorder \<Rightarrow> recorder" where
  "close_danmu_file fname s =
     (if truthy fname then (if disk s (the fname) \<noteq> None then s else s) else s)"

subsection \<open>\<open>write_danmu\<close>\<close>

text \<open>
  Lines 322-345: the file is created when the first comment arrives.  \<open>None\<close> is the
  early \<open>return\<close> taken when no file name can be generated; \<open>clock\<close> is the reading of
  \<open>time.time()\<close> at line 330.
\<close>

definition open_output :: "library \<Rightarrow> real \<Rightarrow> recorder \<Rightarrow> recorder option" where
  "open_output lib clock s =
     (if \<not> truthy (filename s) \<and> \<not> truthy (current_segment_file s) then
        (if segment_index s \<noteq> None then
           (let fname = generate_filename lib s
            in if truthy fname then
                 (let s = s\<lparr>current_segment_file := fname\<rparr>;
                      s = create_danmu_file (the (current_segment_file s)) s;
                      s = s\<lparr>segment_start_time := Some clock\<rparr>;
                      s = s\<lparr>segment_index := Some (the (segment_index s) + 1)\<rparr>
                  in Some s)
               else None)
         else
           (let fname = generate_filename lib s
            in if truthy fname then
                 (let s = s\<lparr>filename := fname\<rparr>;
                      s = create_danmu_file (the (filename s)) s
                  in Some s)
               else None))
      else Some s)"

text \<open>
  Lines 349-354: the instant the offset is counted from.  \<open>segment_start_time\<close> is
  tested for truth, so \<open>None\<close> and \<open>0\<close> both select the other branch, and there a
  \<open>start_time_t\<close> that is still \<open>None\<close> makes the subtraction raise \<open>TypeError\<close>.
\<close>

definition offset_basis :: "recorder \<Rightarrow> exn + real" where
  "offset_basis s =
     (if truthy (current_segment_file s)
         \<and> segment_start_time s \<noteq> None \<and> segment_start_time s \<noteq> Some 0
      then Inr (the (segment_start_time s))
      else (case start_time_t s of
              None \<Rightarrow> Inl TypeError
            | Some t \<Rightarrow> Inr (real_of_int t)))"

text \<open>Lines 356-364: the file written to, \<open>None\<close> when there is none.\<close>

definition target_file :: "recorder \<Rightarrow> string option" where
  "target_file s =
     (if truthy (current_segment_file s) then current_segment_file s
      else if truthy (filename s) then filename s
      else None)"

text \<open>Line 372: the line of one comment.\<close>

definition danmu_line :: "real \<Rightarrow> real \<Rightarrow> string \<Rightarrow> string \<Rightarrow> string" where
  \<open>danmu_line second timestamp user content =
     ''  <d p="'' @ str_round2 second @ '',1,25,16777215,''
     @ str_int (py_int (timestamp * 1000)) @ '',0,1602022773,0" user="'' @ user
     @ ''">'' @ content @ ''</d>\<newline>''\<close>

text \<open>Lines 375-380: \<open>insert(-1, ...)\<close> before a closing last line, two appends otherwise.\<close>

definition insert_danmu :: "string list \<Rightarrow> string \<Rightarrow> string list" where
  "insert_danmu content_lines line =
     (if content_lines \<noteq> [] \<and> py_strip (last content_lines) = ''</i>''
      then butlast content_lines @ [line, last content_lines]
      else content_lines @ [line, ''</i>\<newline>''])"

text \<open>
  Lines 347-387, under the lock.  An exception leaves the \<open>try\<close> block with the
  recorder as it is at that point (line 389).
\<close>

definition locked_write :: "string \<Rightarrow> string \<Rightarrow> real \<Rightarrow> recorder \<Rightarrow> recorder" where
  "locked_write user content timestamp s =
     (case offset_basis s of
        Inl e \<Rightarrow> s
      | Inr basis \<Rightarrow>
          (let second = timestamp - basis
           in case target_file s of
                None \<Rightarrow> s
              | Some filepath \<Rightarrow>
                  (let s = (case disk s filepath of
                              None \<Rightarrow> s
                            | Some txt \<Rightarrow>
                                s\<lparr>disk := (disk s)(filepath \<mapsto>
                                     concat (insert_danmu (readlines txt)
                                               (danmu_line second timestamp user content)))\<rparr>);
                       s = s\<lparr>danmu_amount := danmu_amount s + 1\<rparr>
                   in s\<lparr>last_danmu_time := timestamp\<rparr>)))"

definition write_danmu :: "library \<Rightarrow> real \<Rightarrow> string \<Rightarrow> string \<Rightarrow> real \<Rightarrow> recorder \<Rightarrow> recorder" where
  "write_danmu lib clock user content timestamp s =
     (case open_output lib clock s of
        None \<Rightarrow> s
      | Some s \<Rightarrow> locked_write user content timestamp s)"

subsection \<open>\<open>start\<close>, \<open>stop\<close> and the callbacks\<close>

text \<open>
  \<open>start\<close> (lines 392-463).  \<open>room_json\<close> is the answer of \<open>get_live_state_json\<close>,
  \<open>now\<close> the second \<open>time.localtime()\<close> reads, \<open>ws_url\<close> the result of
  \<open>get_danmu_ws_url\<close> (which falls back to an unsigned address and does not raise).
  The effects are the threads started: the one running the socket and, with
  segmentation, the one checking the segment's age.
\<close>

definition start :: "pydict option \<Rightarrow> int \<Rightarrow> string \<Rightarrow> bool \<Rightarrow> int \<Rightarrow> recorder \<Rightarrow> recorder \<times> effect list" where
  "start room_json now ws_url enable_segment segment_time s =
     (case room_json of
        None \<Rightarrow> (s, [])
      | Some j \<Rightarrow>
          (let s = s\<lparr>room_real_id := Some (dict_get j ''id_str'' (PStr (room_id s)))\<rparr>;
               status = dict_get j ''status'' (PInt 0)
           in if status \<noteq> PInt 2 then (s, [])
              else
                (let s = (if start_time s = None then s\<lparr>start_time := Some now\<rparr> else s);
                     s = s\<lparr>start_time_t := start_time s\<rparr>;
                     s = (if enable_segment
                          then s\<lparr>segment_index := Some 0, segment_start_time := None\<rparr>
                          else s);
                     s = s\<lparr>ws := Some \<lparr>url = ws_url, keep_running = False,
                                        sock_open = False, sent = []\<rparr>\<rparr>
                 in (s, RunForever ws_url
                        # (if enable_segment then [SegmentChecker segment_time] else [])))))"

text \<open>\<open>stop\<close> (lines 465-472).\<close>

definition stop :: "recorder \<Rightarrow> recorder" where
  "stop s =
     (let s = s\<lparr>stop_signal := True\<rparr>
      in case ws s of None \<Rightarrow> s | Some w \<Rightarrow> s\<lparr>ws := Some (ws_close w)\<rparr>)"

text \<open>
  \<open>_on_close\<close> (lines 521-538).  After the pause nothing follows: the comment at line
  538 marks where reconnection could be added.
\<close>

definition on_close :: "recorder \<Rightarrow> recorder \<times> effect list" where
  "on_close s =
     (if stop_signal s then
        (if truthy (current_segment_file s)
         then (close_danmu_file (current_segment_file s) s, [])
         else if truthy (filename s) then (close_danmu_file (filename s) s, [])
         else (s, []))
      else if retry s < max_retry s then (s\<lparr>retry := retry s + 1\<rparr>, [Sleep 2])
      else (s, []))"

text \<open>A run of close events, the effects in the order they happen.\<close>

fun closes :: "nat \<Rightarrow> recorder \<Rightarrow> recorder \<times> effect list" where
  "closes 0 s = (s, [])"
| "closes (Suc n) s =
     (let (s1, e1) = on_close s; (s2, e2) = closes n s1 in (s2, e1 @ e2))"

text \<open>
  \<open>_on_message\<close> (lines 479-515).  \<open>now\<close> is \<open>time.time()\<close> at line 482.  The nickname
  and the content of a decoded chat message are strings; any other value is outside
  the model and is treated as a failure of the dispatch.  \<open>Inl\<close> is an exception on
  its way to the handler of line 514, which keeps the recorder as it is.
\<close>

definition dispatch :: "library \<Rightarrow> real \<Rightarrow> real \<Rightarrow> pydict \<Rightarrow> recorder \<Rightarrow> exn + recorder" where
  "dispatch lib now clock parsed_data s =
     (if dict_in ''user'' parsed_data \<and> dict_in ''content'' parsed_data then
        (case subscript (dict_get parsed_data ''user'' (PDict [])) ''nickName'' of
           Inl e \<Rightarrow> Inl e
         | Inr (PStr user) \<Rightarrow>
             (case dict_get parsed_data ''content'' (PStr []) of
                PStr content \<Rightarrow>
                  Inr ((write_danmu lib clock user content now s)\<lparr>last_danmu_time := now\<rparr>)
              | _ \<Rightarrow> Inl TypeError)
         | Inr _ \<Rightarrow> Inl TypeError)
      else if dict_in ''needAck'' parsed_data \<and> dict_get parsed_data ''needAck'' (PBool False) = PBool True then
        (case (dict_get parsed_data ''logid'' (PInt 0), dict_get parsed_data ''internalExt'' (PStr [])) of
           (PInt lg, PStr ext) \<Rightarrow>
             (case ws s of
                None \<Rightarrow> Inr s
              | Some w \<Rightarrow>
                  (case ws_send (create_ack_frame lib lg ext) w of
                     Inl e \<Rightarrow> Inr s
                   | Inr w' \<Rightarrow> Inr (s\<lparr>ws := Some w'\<rparr>)))
         | _ \<Rightarrow> Inr s)
      else Inr s)"

definition on_message :: "library \<Rightarrow> real \<Rightarrow> real \<Rightarrow> bytes \<Rightarrow> recorder \<Rightarrow> recorder" where
  "on_message lib now clock message s =
     (case (case parse_danmu_message lib message of
              None \<Rightarrow> Inr s
            | Some parsed_data \<Rightarrow>
                if parsed_data \<noteq> [] then dispatch lib now clock parsed_data s else Inr s) of
        Inl e \<Rightarrow> s
      | Inr s \<Rightarrow> if 0 < length message then s\<lparr>last_danmu_time := now\<rparr> else s)"

subsection \<open>The demonstration script (\<open>only_danmu_fixed.py\<close>)\<close>

text \<open>
  \<open>DanmuRecorder._on_close\<close> (lines 351-369): the closing tag is appended to the
  file, then \<open>start()\<close> is called again after the pause, at most three times.
\<close>

record demo_recorder =
  demo_filename :: "string option"
  demo_stop_signal :: bool
  demo_retry :: int
  demo_disk :: "string \<rightharpoonup> string"

definition demo_on_close :: "demo_recorder \<Rightarrow> demo_recorder \<times> effect list" where
  "demo_on_close s =
     (let s = (if truthy (demo_filename s) then
                 (case demo_disk s (the (demo_filename s)) of
                    None \<Rightarrow> s
                  | Some txt \<Rightarrow> s\<lparr>demo_disk := (demo_disk s)(the (demo_filename s) \<mapsto> txt @ ''</i>'')\<rparr>)
               else s)
      in if \<not> demo_stop_signal s \<and> demo_retry s < 3
         then (s\<lparr>demo_retry := demo_retry s + 1\<rparr>, [Sleep 2, CallStart])
         else (s, []))"

section \<open>The properties, in the words of the specification\<close>

text \<open>
  A structurally valid decoded result: the dictionary of a chat comment or the one of
  an acknowledgement request, the log id in the range of uint64.
\<close>

definition valid_parsed :: "pydict \<Rightarrow> bool" where
  "valid_parsed d =
     ((map fst d = [''user'', ''content'', ''logid'', ''needAck'', ''internalExt'']
       \<or> map fst d = [''needAck'', ''logid'', ''internalExt'']
         \<and> map_of d ''needAck'' = Some (PBool True))
      \<and> (case map_of d ''logid'' of Some (PInt l) \<Rightarrow> 0 \<le> l \<and> l < 2 ^ 64 | _ \<Rightarrow> False)
      \<and> (case map_of d ''needAck'' of Some (PBool b) \<Rightarrow> True | _ \<Rightarrow> False)
      \<and> (case map_of d ''internalExt'' of Some (PStr e) \<Rightarrow> True | _ \<Rightarrow> False))"

text \<open>
  A well-formed XML document, for the part of XML 1.0 that such a file can use.  The
  check reads the text once, character by character, and accepts

  \<^item> the XML declaration of version 1.0 and encoding utf-8, at the very start only;
  \<^item> processing instructions and white space before the root element;
  \<^item> one root element, its content made of character data and elements, every end
    tag closing the element opened last;
  \<^item> attributes written \<open>name="value"\<close>, separated by white space, no name twice in
    a tag, no \<open><\<close>, \<open>&\<close> or double quote in a value;
  \<^item> character data without \<open><\<close>, \<open>&\<close> and \<open>]]>\<close>;
  \<^item> names of ASCII letters, digits, \<open>_\<close>, \<open>-\<close> and \<open>.\<close>, starting with a letter or
    \<open>_\<close>;
  \<^item> white space only after the root element;
  \<^item> text that is UTF-8 of the characters XML allows (no control character but tab,
    line feed and carriage return, no surrogate, neither U+FFFE nor U+FFFF).

  Whatever it accepts is well-formed XML 1.0.  It refuses what the recorder never
  writes, although XML allows it: comments, CDATA sections, references, document
  type declarations, empty-element tags, single quotes around a value, white space
  around \<open>=\<close>, names outside ASCII or with a colon.
\<close>

definition is_xml_space :: "char \<Rightarrow> bool" where
  "is_xml_space c = (c \<in> set [CHR 0x20, CHR 0x09, CHR 0x0D, CHR 0x0A])"

definition is_name_start :: "char \<Rightarrow> bool" where
  "is_name_start c = (c \<in> set ''ABCDEFGHIJKLMNOPQRSTUVWXYZabcdefghijklmnopqrstuvwxyz_'')"

definition is_name_char :: "char \<Rightarrow> bool" where
  "is_name_char c = (is_name_start c \<or> c \<in> set ''0123456789-.'')"

text \<open>
  The body of a processing instruction: a target that is a name, then nothing or white
  space and anything.  The target \<open>xml\<close>, in any case of its letters, is the XML
  declaration.
\<close>

definition pi_ok :: "bool \<Rightarrow> string \<Rightarrow> bool" where
  \<open>pi_ok first body =
     (let target = takeWhile is_name_char body; rest = dropWhile is_name_char body
      in target \<noteq> [] \<and> is_name_start (hd target)
         \<and> (rest = [] \<or> is_xml_space (hd rest))
         \<and> (if target \<in> set [''xml'', ''xmL'', ''xMl'', ''xML'', ''Xml'', ''XmL'', ''XMl'', ''XML'']
             then first \<and> body = ''xml version="1.0" encoding="utf-8"''
             else True))\<close>

text \<open>
  Where the reading stands: before the root element (\<open>Prolog\<close>, the flag telling
  whether nothing has been read yet), after a \<open><\<close>, in a processing instruction
  (its body so far, and whether the last character was \<open>?\<close>), in the name of a start
  tag, between the attributes of a tag (the names seen, and whether white space came
  last), in the name of an attribute, after its \<open>=\<close>, in its value, in character data
  (the number of \<open>]\<close> just read, up to 2), in the name of an end tag, after that
  name, after the root element, or in a text that is not XML.  With it goes the stack
  of the open elements.
\<close>

datatype xml_mode =
    Prolog bool
  | Lt bool
  | PI bool string bool
  | StartName string
  | InTag string "string list" bool
  | AttrName string "string list" string
  | AfterEq string "string list"
  | AttrValue string "string list"
  | Text nat
  | EndName string
  | EndSpace string
  | Epilog
  | Malformed

type_synonym xml_state = "xml_mode \<times> string list"

definition open_element :: "string \<Rightarrow> string list \<Rightarrow> xml_state" where
  "open_element n stack = (Text 0, n # stack)"

definition close_element :: "string \<Rightarrow> string list \<Rightarrow> xml_state" where
  "close_element e stack =
     (case stack of
        [] \<Rightarrow> (Malformed, [])
      | n # rest \<Rightarrow>
          if e = n then (if rest = [] then (Epilog, []) else (Text 0, rest))
          else (Malformed, stack))"

fun xml_step :: "xml_state \<Rightarrow> char \<Rightarrow> xml_state" where
  "xml_step (Prolog first, stack) c =
     (if is_xml_space c then (Prolog False, stack)
      else if c = CHR ''<'' then (Lt first, stack)
      else (Malformed, stack))"
| "xml_step (Lt first, stack) c =
     (if c = CHR ''?'' then (if stack = [] then (PI first [] False, stack) else (Malformed, stack))
      else if c = CHR ''/'' then (if stack = [] then (Malformed, stack) else (EndName [], stack))
      else if is_name_start c then (StartName [c], stack)
      else (Malformed, stack))"
| "xml_step (PI first body q, stack) c =
     (if q \<and> c = CHR ''>'' then
        (if pi_ok first (butlast body) then (Prolog False, stack) else (Malformed, stack))
      else (PI first (body @ [c]) (c = CHR ''?''), stack))"
| "xml_step (StartName n, stack) c =
     (if is_name_char c then (StartName (n @ [c]), stack)
      else if is_xml_space c then (InTag n [] True, stack)
      else if c = CHR ''>'' then open_element n stack
      else (Malformed, stack))"
| "xml_step (InTag n attrs sp, stack) c =
     (if is_xml_space c then (InTag n attrs True, stack)
      else if c = CHR ''>'' then open_element n stack
      else if sp \<and> is_name_start c then (AttrName n attrs [c], stack)
      else (Malformed, stack))"
| "xml_step (AttrName n attrs a, stack) c =
     (if is_name_char c then (AttrName n attrs (a @ [c]), stack)
      else if c = CHR ''='' \<and> a \<notin> set attrs then (AfterEq n (a # attrs), stack)
      else (Malformed, stack))"
| "xml_step (AfterEq n attrs, stack) c =
     (if c = CHR 0x22 then (AttrValue n attrs, stack) else (Malformed, stack))"
| "xml_step (AttrValue n attrs, stack) c =
     (if c = CHR 0x22 then (InTag n attrs False, stack)
      else if c = CHR ''<'' \<or> c = CHR ''&'' then (Malformed, stack)
      else (AttrValue n attrs, stack))"
| "xml_step (Text k, stack) c =
     (if c = CHR ''<'' then (Lt False, stack)
      else if c = CHR ''&'' then (Malformed, stack)
      else if c = CHR '']'' then (Text (min 2 (k + 1)), stack)
      else if c = CHR ''>'' \<and> 2 \<le> k then (Malformed, stack)
      else (Text 0, stack))"
| "xml_step (EndName e, stack) c =
     (if (if e = [] then is_name_start c else is_name_char c) then (EndName (e @ [c]), stack)
      else if e \<noteq> [] \<and> is_xml_space c then (EndSpace e, stack)
      else if e \<noteq> [] \<and> c = CHR ''>'' then close_element e stack
      else (Malformed, stack))"
| "xml_step (EndSpace e, stack) c =
     (if is_xml_space c then (EndSpace e, stack)
      else if c = CHR ''>'' then close_element e stack
      else (Malformed, stack))"
| "xml_step (Epilog, stack) c =
     (if is_xml_space c then (Epilog, stack) else (Malformed, stack))"
| "xml_step (Malformed, stack) c = (Malformed, stack)"

text \<open>
  UTF-8 of the characters of XML: \<open>UCont k lo hi\<close> expects \<open>k\<close> more bytes, the next
  one between \<open>lo\<close> and \<open>hi\<close>.
\<close>

datatype utf8_state = UStart | UCont nat nat nat | UAfterEF | UAfterEFBF | UBad

fun utf8_step :: "utf8_state \<Rightarrow> char \<Rightarrow> utf8_state" where
  "utf8_step UStart c =
     (let n = (of_char c :: nat)
      in if n < 0x80 then (if 0x20 \<le> n \<or> n = 0x09 \<or> n = 0x0A \<or> n = 0x0D then UStart else UBad)
         else if 0xC2 \<le> n \<and> n \<le> 0xDF then UCont 1 0x80 0xBF
         else if n = 0xE0 then UCont 2 0xA0 0xBF
         else if n = 0xED then UCont 2 0x80 0x9F
         else if n = 0xEF then UAfterEF
         else if 0xE1 \<le> n \<and> n \<le> 0xEE then UCont 2 0x80 0xBF
         else if n = 0xF0 then UCont 3 0x90 0xBF
         else if 0xF1 \<le> n \<and> n \<le> 0xF3 then UCont 3 0x80 0xBF
         else if n = 0xF4 then UCont 3 0x80 0x8F
         else UBad)"
| "utf8_step (UCont k lo hi) c =
     (let n = (of_char c :: nat)
      in if lo \<le> n \<and> n \<le> hi then (if k \<le> 1 then UStart else UCont (k - 1) 0x80 0xBF)
         else UBad)"
| "utf8_step UAfterEF c =
     (let n = (of_char c :: nat)
      in if n = 0xBF then UAfterEFBF
         else if 0x80 \<le> n \<and> n \<le> 0xBE then UCont 1 0x80 0xBF
         else UBad)"
| "utf8_step UAfterEFBF c =
     (let n = (of_char c :: nat) in if 0x80 \<le> n \<and> n \<le> 0xBD then UStart else UBad)"
| "utf8_step UBad c = UBad"

definition xml_chars :: "string \<Rightarrow> bool" where
  "xml_chars t = (foldl utf8_step UStart t = UStart)"

definition xml_well_formed :: "string \<Rightarrow> bool" where
  "xml_well_formed t = (xml_chars t \<and> foldl xml_step (Prolog True, []) t = (Epilog, []))"

text \<open>
  Text that can stand unescaped in an attribute value, and in the content of an
  element: \<open>has_cdata_end\<close> tells whether \<open>]]>\<close> occurs.
\<close>

fun has_cdata_end :: "string \<Rightarrow> bool" where
  "has_cdata_end (a # b # c # r) =
     (a = CHR '']'' \<and> b = CHR '']'' \<and> c = CHR ''>'' \<or> has_cdata_end (b # c # r))"
| "has_cdata_end r = False"

definition attribute_text :: "string \<Rightarrow> bool" where
  "attribute_text v =
     (xml_chars v \<and> CHR 0x22 \<notin> set v \<and> CHR ''<'' \<notin> set v \<and> CHR ''&'' \<notin> set v)"

definition character_data :: "string \<Rightarrow> bool" where
  "character_data t =
     (xml_chars t \<and> CHR ''<'' \<notin> set t \<and> CHR ''&'' \<notin> set t \<and> \<not> has_cdata_end t)"

text \<open>
  The layout of the document by lines: the two header lines, the opening root tag,
  and a last line that is the closing tag.  A comment line is a line that starts,
  after its indentation, with \<open><d\<close> and a space.
\<close>

definition header_lines :: "string list" where
  \<open>header_lines =
     [''<?xml version="1.0" encoding="utf-8"?>\<newline>'',
      ''<?xml-stylesheet type="text/xsl" href="#s"?>\<newline>'',
      ''<i>\<newline>'']\<close>

definition complete_document :: "string \<Rightarrow> bool" where
  "complete_document txt =
     (4 \<le> length (readlines txt) \<and> take 3 (readlines txt) = header_lines
      \<and> py_strip (last (readlines txt)) = ''</i>'')"

definition is_comment_line :: "string \<Rightarrow> bool" where
  "is_comment_line l = (take 3 (dropWhile py_isspace l) = ''<d '')"

definition comment_lines :: "string \<Rightarrow> string list" where
  "comment_lines txt = filter is_comment_line (readlines txt)"

definition no_linebreak :: "string \<Rightarrow> bool" where
  "no_linebreak t = (CHR 0x0A \<notin> set t \<and> CHR 0x0D \<notin> set t)"

text \<open>
  An open segment: the recorder holds the segment's file name and start instant, as
  lines 328-330 set them together, and the file is there.
\<close>

definition segment_open :: "string \<Rightarrow> real \<Rightarrow> recorder \<Rightarrow> bool" where
  "segment_open f t0 s =
     (current_segment_file s = Some f \<and> f \<noteq> [] \<and> segment_start_time s = Some t0
      \<and> t0 \<noteq> 0 \<and> disk s f \<noteq> None)"

text \<open>A comment as \<open>write_danmu\<close> receives it: user, content and arrival time.\<close>

type_synonym comment = "string \<times> string \<times> real"

text \<open>
  A comment that needs no escaping: no line break in the user name and the content,
  the user name fit for an attribute value, the content fit for character data.
\<close>

definition comment_ok :: "comment \<Rightarrow> bool" where
  "comment_ok c =
     (case c of (user, content, timestamp) \<Rightarrow>
        no_linebreak user \<and> no_linebreak content
        \<and> attribute_text user \<and> character_data content)"

fun write_all :: "library \<Rightarrow> real \<Rightarrow> comment list \<Rightarrow> recorder \<Rightarrow> recorder" where
  "write_all lib clock [] s = s"
| "write_all lib clock ((user, content, timestamp) # cs) s =
     write_all lib clock cs (write_danmu lib clock user content timestamp s)"

section \<open>Concrete inputs\<close>

text \<open>
  A library for the examples: frames are taken as already decoded, so the parsers
  return fixed messages; the stem of a file name is its part before the first dot.
\<close>

definition two_chats :: Response where
  "two_chats = \<lparr>needAck = True, internalExt = ''ext'',
                 messagesList = [\<lparr>msg_method = ''WebcastMemberMessage'', msg_payload = [0]\<rparr>,
                                 \<lparr>msg_method = ''WebcastChatMessage'', msg_payload = [1]\<rparr>,
                                 \<lparr>msg_method = ''WebcastChatMessage'', msg_payload = [2]\<rparr>]\<rparr>"

definition example_chat :: "bytes \<Rightarrow> exn + pydict" where
  "example_chat b =
     (if b = [1] then Inr [(''user'', PDict [(''nickName'', PStr ''alice'')]), (''content'', PStr ''hi'')]
      else if b = [2] then Inr [(''user'', PDict [(''nickName'', PStr ''bob'')]), (''content'', PStr ''yo'')]
      else Inl DecodeError)"

definition example_lib :: library where
  "example_lib =
     \<lparr>PushFrame_ParseFromString = (\<lambda>b. Inr \<lparr>logid = 7, payloadType = ''msg'', payload = b\<rparr>),
      gzip_decompress = (\<lambda>b. if b = [] then Inl BadGzipFile else Inr b),
      Response_ParseFromString = (\<lambda>b. Inr two_chats),
      ChatMessage_to_dict = example_chat,
      PushFrame_SerializeToString = (\<lambda>f. payload f),
      Path_stem = takeWhile (\<lambda>c. c \<noteq> CHR ''.'')\<rparr>"

text \<open>A recorder with the video file name set, and the same after a successful \<open>start\<close>
  without segmentation at second 1000.\<close>

definition fresh :: recorder where
  "fresh = new_recorder ''room'' (Some ''v.mp4'') Map.empty"

definition live_json :: pydict where
  "live_json = [(''id_str'', PStr ''123''), (''status'', PInt 2)]"

definition started :: recorder where
  "started = fst (start (Some live_json) 1000 ''wss://host'' False 1800 fresh)"

text \<open>The same recorder before any video file name is known.\<close>

definition waiting :: recorder where
  "waiting = fst (start (Some live_json) 1000 ''wss://host'' False 1800
                    (new_recorder ''room'' None Map.empty))"

text \<open>
  The started recorder once lines 326-332 have created the file at second 1005; the
  started recorder after its first comment, which arrives at that second; and the
  same with the file then removed from the directory.
\<close>

definition created :: recorder where
  "created = the (open_output example_lib 1005 started)"

definition recording :: recorder where
  "recording = write_danmu example_lib 1005 ''alice'' ''hi'' 1005 started"

definition file_removed :: recorder where
  "file_removed = recording\<lparr>disk := (disk recording)(''v.xml'' := None)\<rparr>"

definition line_alice :: string where
  \<open>line_alice =
     ''  <d p="0.0,1,25,16777215,1005000,0,1602022773,0" user="alice">hi</d>\<newline>''\<close>

text \<open>The two lines that a comment with a line break in its content becomes.\<close>

definition line_split1 :: string where
  \<open>line_split1 =
     ''  <d p="5.0,1,25,16777215,1010000,0,1602022773,0" user="bob">x\<newline>''\<close>

definition line_split2 :: string where
  \<open>line_split2 = ''  <d y</d>\<newline>''\<close>

text \<open>The line of a comment whose user name and content would need escaping.\<close>

definition line_unescaped :: string where
  \<open>line_unescaped =
     ''  <d p="5.0,1,25,16777215,1010000,0,1602022773,0" user="a"b">x<y&z</d>\<newline>''\<close>

section \<open>Lines of a text\<close>

text \<open>
  A full line ends with its only line feed; the last line of a text may also have
  none.
\<close>

definition full_line :: "string \<Rightarrow> bool" where
  "full_line l = (l \<noteq> [] \<and> last l = CHR 0x0A \<and> CHR 0x0A \<notin> set (butlast l))"

definition last_line :: "string \<Rightarrow> bool" where
  "last_line l = (full_line l \<or> (l \<noteq> [] \<and> CHR 0x0A \<notin> set l))"

text \<open>The characters of a number as \<open>str_round2\<close> and \<open>str_int\<close> print it.\<close>

definition number_char :: "char \<Rightarrow> bool" where
  "number_char c = (c \<in> set ''0123456789-.'')"

text \<open>
  The file of a segment with the lines \<open>ls\<close> between the root tag and the closing tag,
  and what holds of each of these lines when it is the line of a comment that needs
  no escaping.
\<close>

definition document_of :: "string list \<Rightarrow> string" where
  "document_of ls = concat (header_lines @ ls @ [''</i>\<newline>''])"

definition body_line :: "string \<Rightarrow> bool" where
  "body_line l =
     (full_line l \<and> CHR 0x0D \<notin> set l \<and> is_comment_line l \<and> xml_chars l
      \<and> foldl xml_step (Text 0, [''i'']) l = (Text 0, [''i'']))"

definition line_of :: "real \<Rightarrow> comment \<Rightarrow> string" where
  "line_of t0 c =
     (case c of (user, content, timestamp) \<Rightarrow>
        danmu_line (timestamp - t0) timestamp user content)"

section \<open>The frame codec: results\<close>

lemma ack_frame_object_payloadType:
  "ack_frame_object lg internal_ext = Inr obj \<Longrightarrow> payloadType obj = internal_ext"
  by (auto simp: ack_frame_object_def Let_def split: if_splits)

text \<open>
  C1.  The claim: the acknowledgement frame carries the type tag \<open>ack\<close> and, in a field
  of its own, the \<open>internalExt\<close> of the frame it answers.  The code assigns \<open>'ack'\<close> to
  \<open>payloadType\<close> and then assigns the extension to the same field: for the log id 7
  and the extension \<open>internal_src:dim\<close> the frame that is serialised has the extension
  as its type and an empty payload, in \<open>create_ack_frame\<close> and in the demonstration
  script alike.
\<close>

theorem create_ack_frame_overwrites_type_tag:
  "ack_frame_object 7 ''internal_src:dim''
     = Inr \<lparr>logid = 7, payloadType = ''internal_src:dim'', payload = []\<rparr>
   \<and> create_ack_frame lib 7 ''internal_src:dim''
     = PushFrame_SerializeToString lib
         \<lparr>logid = 7, payloadType = ''internal_src:dim'', payload = []\<rparr>
   \<and> demo_ack_frame 7 ''internal_src:dim''
     = \<lparr>logid = 7, payloadType = ''internal_src:dim'', payload = []\<rparr>"
  by (simp add: ack_frame_object_def create_ack_frame_def demo_ack_frame_def new_PushFrame_def)

lemma uint64_range: "uint (lg :: 64 word) < 18446744073709551616"
  using uint_lt2p [of lg] by simp

lemma valid_chat_result: "valid_parsed (chat_result data lg b e)"
  by (simp add: valid_parsed_def chat_result_def uint64_range)

lemma valid_ack_result: "valid_parsed (ack_result lg e)"
  by (simp add: valid_parsed_def ack_result_def uint64_range)

lemma scan_messages_valid:
  "scan_messages lib lg p ms = Inr (Some d) \<Longrightarrow> valid_parsed d"
  by (induction ms) (auto simp: valid_chat_result split: if_splits sum.splits)

lemma parse_body_valid: "parse_body lib message = Inr (Some d) \<Longrightarrow> valid_parsed d"
  by (auto simp: parse_body_def valid_ack_result
      split: sum.splits option.splits if_splits dest: scan_messages_valid)

text \<open>
  C2.  For every byte sequence, and whatever the parsers and the decompressor do with
  it, \<open>parse_danmu_message\<close> returns \<open>None\<close> or a structurally valid dictionary, and
  every exception raised in the body of its \<open>try\<close> block ends as \<open>None\<close>.  The function
  takes the bytes only and returns the result only: it has no access to the recorder,
  so there is no shared state it could change.
\<close>

theorem parse_danmu_message_valid_or_none:
  "(parse_danmu_message lib message = None
     \<or> (\<exists>d. parse_danmu_message lib message = Some d \<and> valid_parsed d))
   \<and> (\<forall>e. parse_body lib message = Inl e \<longrightarrow> parse_danmu_message lib message = None)"
proof (cases "parse_body lib message")
  case (Inl e)
  then show ?thesis by (simp add: parse_danmu_message_def)
next
  case (Inr r)
  show ?thesis
  proof (cases r)
    case None
    with Inr show ?thesis by (simp add: parse_danmu_message_def)
  next
    case (Some d)
    with Inr have "valid_parsed d" by (simp add: parse_body_valid)
    with Inr Some show ?thesis by (simp add: parse_danmu_message_def)
  qed
qed

theorem parse_danmu_message_valid_or_none_witness:
  "parse_body example_lib [] = Inl BadGzipFile \<and> parse_danmu_message example_lib [] = None"
proof -
  have "parse_body example_lib [] = Inl BadGzipFile"
    by (simp add: parse_body_def example_lib_def)
  with parse_danmu_message_valid_or_none [of example_lib "[]"] show ?thesis by blast
qed

lemma scan_messages_first_chat:
  "\<forall>m \<in> set before. msg_method m \<noteq> ''WebcastChatMessage'' \<Longrightarrow>
   msg_method msg = ''WebcastChatMessage'' \<Longrightarrow>
   scan_messages lib lg p (before @ msg # rest) =
     (case ChatMessage_to_dict lib (msg_payload msg) of
        Inl e \<Rightarrow> Inl e
      | Inr data \<Rightarrow> Inr (Some (chat_result data lg (needAck p) (internalExt p))))"
  by (induction before) auto

section \<open>The recorder: results\<close>

lemma danmu_amount_locked_write:
  "danmu_amount (locked_write user content timestamp s) \<le> danmu_amount s + 1"
  by (auto simp: locked_write_def Let_def split: sum.splits option.splits)

lemma danmu_amount_open_output:
  "open_output lib clock s = Some s' \<Longrightarrow> danmu_amount s' = danmu_amount s"
  by (auto simp: open_output_def Let_def create_danmu_file_def split: if_splits)

lemma danmu_amount_write_danmu:
  "danmu_amount (write_danmu lib clock user content timestamp s) \<le> danmu_amount s + 1"
  using danmu_amount_locked_write danmu_amount_open_output
  by (auto simp: write_danmu_def split: option.splits) (metis)

lemma danmu_amount_dispatch:
  "dispatch lib now clock parsed s = Inr s' \<Longrightarrow> danmu_amount s' \<le> danmu_amount s + 1"
  using danmu_amount_write_danmu [of lib clock _ _ now s]
  by (auto simp: dispatch_def split: if_splits sum.splits pyval.splits option.splits prod.splits)

lemma danmu_amount_on_message:
  "danmu_amount (on_message lib now clock message s) \<le> danmu_amount s + 1"
  by (auto simp: on_message_def split: sum.splits option.splits if_splits
      dest: danmu_amount_dispatch)

text \<open>
  A frame that does not decode leaves the recorder as it is, but for the time of the
  last message received: the session goes on.
\<close>

lemma on_message_undecodable:
  "parse_danmu_message lib message = None \<Longrightarrow>
   on_message lib now clock message s
     = (if 0 < length message then s\<lparr>last_danmu_time := now\<rparr> else s)"
  by (simp add: on_message_def)

text \<open>
  C9.  When the batch of a frame holds a chat message, the result of
  \<open>parse_danmu_message\<close> is made from the first one alone: it is the same whatever
  follows that message in the batch (\<open>rest\<close> does not occur in it), later chat
  messages included, and they are not decoded.  Accordingly \<open>_on_message\<close> hands at
  most one comment of a frame to the writer.
\<close>

theorem parse_danmu_message_first_chat_only:
  assumes "PushFrame_ParseFromString lib message = Inr wssPackage"
    and "gzip_decompress lib (payload wssPackage) = Inr decompressed"
    and "Response_ParseFromString lib decompressed = Inr payloadPackage"
    and "messagesList payloadPackage = before @ msg # rest"
    and "list_all (\<lambda>m. msg_method m \<noteq> ''WebcastChatMessage'') before"
    and "msg_method msg = ''WebcastChatMessage''"
  shows "parse_danmu_message lib message =
           (case ChatMessage_to_dict lib (msg_payload msg) of
              Inl e \<Rightarrow> None
            | Inr data \<Rightarrow> Some (chat_result data (logid wssPackage)
                                (needAck payloadPackage) (internalExt payloadPackage)))
         \<and> danmu_amount (on_message lib now clock message s) \<le> danmu_amount s + 1"
proof -
  from assms(5) have "\<forall>m \<in> set before. msg_method m \<noteq> ''WebcastChatMessage''"
    by (simp add: list_all_iff)
  then have "scan_messages lib (logid wssPackage) payloadPackage (messagesList payloadPackage) =
     (case ChatMessage_to_dict lib (msg_payload msg) of
        Inl e \<Rightarrow> Inl e
      | Inr data \<Rightarrow> Inr (Some (chat_result data (logid wssPackage)
                                (needAck payloadPackage) (internalExt payloadPackage))))"
    using assms(4,6) by (simp add: scan_messages_first_chat)
  then have "parse_danmu_message lib message =
           (case ChatMessage_to_dict lib (msg_payload msg) of
              Inl e \<Rightarrow> None
            | Inr data \<Rightarrow> Some (chat_result data (logid wssPackage)
                                (needAck payloadPackage) (internalExt payloadPackage)))"
    using assms(1-3) by (simp add: parse_danmu_message_def parse_body_def split: sum.splits)
  then show ?thesis by (simp add: danmu_amount_on_message)
qed

theorem parse_danmu_message_first_chat_only_witness:
  "parse_danmu_message example_lib [9] =
     Some [(''user'', PDict [(''nickName'', PStr ''alice'')]), (''content'', PStr ''hi''),
           (''logid'', PInt 7), (''needAck'', PBool True), (''internalExt'', PStr ''ext'')]
   \<and> danmu_amount (on_message example_lib 1005 1005 [9] started) \<le> danmu_amount started + 1"
proof -
  have 1: "PushFrame_ParseFromString example_lib [9]
             = Inr \<lparr>logid = 7, payloadType = ''msg'', payload = [9]\<rparr>"
    by (simp add: example_lib_def)
  have 2: "gzip_decompress example_lib (payload \<lparr>logid = 7, payloadType = ''msg'', payload = [9]\<rparr>)
             = Inr [9]"
    by (simp add: example_lib_def)
  have 3: "Response_ParseFromString example_lib [9] = Inr two_chats"
    by (simp add: example_lib_def)
  have 4: "messagesList two_chats
             = [\<lparr>msg_method = ''WebcastMemberMessage'', msg_payload = [0]\<rparr>]
               @ \<lparr>msg_method = ''WebcastChatMessage'', msg_payload = [1]\<rparr>
               # [\<lparr>msg_method = ''WebcastChatMessage'', msg_payload = [2]\<rparr>]"
    by (simp add: two_chats_def)
  have 5: "list_all (\<lambda>m. msg_method m \<noteq> ''WebcastChatMessage'')
             [\<lparr>msg_method = ''WebcastMemberMessage'', msg_payload = [0]\<rparr>]"
    by simp
  have 6: "msg_method \<lparr>msg_method = ''WebcastChatMessage'', msg_payload = [1]\<rparr>
             = ''WebcastChatMessage''"
    by simp
  from parse_danmu_message_first_chat_only [OF 1 2 3 4 5 6, of 1005 1005 started]
  show ?thesis
    by (simp add: example_lib_def example_chat_def chat_result_def dict_get_def two_chats_def)
qed

text \<open>
  C7.  When the room status lookup answers with a status other than 2, \<open>start\<close>
  returns having started no thread and opened no socket (no effect, \<open>ws\<close> as before)
  and with the files of the output directory as they were; the only change is the
  real room id it has read from the answer.
\<close>

theorem start_not_live_opens_nothing:
  assumes "room_json = Some j" and "dict_get j ''status'' (PInt 0) \<noteq> PInt 2"
  shows "snd (start room_json now ws_url enable_segment segment_time s) = []
       \<and> ws (fst (start room_json now ws_url enable_segment segment_time s)) = ws s
       \<and> disk (fst (start room_json now ws_url enable_segment segment_time s)) = disk s
       \<and> fst (start room_json now ws_url enable_segment segment_time s)
           = s\<lparr>room_real_id := Some (dict_get j ''id_str'' (PStr (room_id s)))\<rparr>"
  using assms by (simp add: start_def Let_def)

theorem start_not_live_opens_nothing_witness:
  "dict_get [(''id_str'', PStr ''123''), (''status'', PInt 4)] ''status'' (PInt 0) \<noteq> PInt 2
   \<and> start (Some [(''id_str'', PStr ''123''), (''status'', PInt 4)]) 1000 ''wss://host'' True 1800 fresh
       = (fresh\<lparr>room_real_id := Some (PStr ''123'')\<rparr>, [])"
proof -
  have h: "dict_get [(''id_str'', PStr ''123''), (''status'', PInt 4)] ''status'' (PInt 0) \<noteq> PInt 2"
    by (simp add: dict_get_def)
  from start_not_live_opens_nothing [OF refl h, of 1000 "''wss://host''" True 1800 fresh] h
  show ?thesis by (simp add: prod_eq_iff dict_get_def)
qed

text \<open>
  C8.  Closing twice is closing once: a second \<open>stop\<close> leaves the recorder as the first
  one left it, \<open>close_danmu_file\<close> changes nothing however often it is called, the
  close callback after a \<open>stop\<close> changes nothing either, and none of them touches a
  file.  The three are total functions with no error result.
\<close>

theorem closing_is_idempotent:
  "stop (stop s) = stop s \<and> disk (stop s) = disk s
   \<and> close_danmu_file f (close_danmu_file f s) = close_danmu_file f s
   \<and> disk (close_danmu_file f s) = disk s
   \<and> on_close (stop s) = (stop s, [])
   \<and> on_close (fst (on_close (stop s))) = on_close (stop s)"
  by (simp add: stop_def ws_close_def close_danmu_file_def on_close_def Let_def
      split: option.splits)

subsection \<open>Evaluating the examples\<close>

lemma started_fields:
  "video_filename started = Some ''v.mp4''" "filename started = None"
  "current_segment_file started = None" "segment_index started = Some 0"
  "segment_start_time started = None" "start_time_t started = Some 1000"
  "disk started = Map.empty" "danmu_amount started = 0" "stop_signal started = False"
  "retry started = 0" "max_retry started = 3"
  by (simp_all add: started_def fresh_def new_recorder_def start_def live_json_def
      dict_get_def Let_def)

lemma waiting_fields:
  "video_filename waiting = None" "filename waiting = None"
  "current_segment_file waiting = None" "segment_index waiting = Some 0"
  "segment_start_time waiting = None" "start_time_t waiting = Some 1000"
  "disk waiting = Map.empty" "danmu_amount waiting = 0"
  by (simp_all add: waiting_def new_recorder_def start_def live_json_def dict_get_def Let_def)

lemma set_video_waiting: "set_video_filename (Some ''v.mp4'') waiting = started"
  by (simp add: set_video_filename_def waiting_def started_def fresh_def new_recorder_def
      start_def live_json_def dict_get_def Let_def)

lemma xml_lines: "readlines xml_template = header_lines @ [''</i>\<newline>'']"
  by (simp add: readlines_def xml_template_def header_lines_def)

lemma strip_close: "py_strip ''</i>\<newline>'' = ''</i>''"
  by (simp add: py_strip_def py_isspace_def)

lemma insert_after_header:
  "insert_danmu (header_lines @ ls @ [''</i>\<newline>'']) l
     = header_lines @ ls @ [l, ''</i>\<newline>'']"
  by (simp add: insert_danmu_def strip_close butlast_append)

lemma open_output_started:
  "open_output example_lib clock started
     = Some (started\<lparr>current_segment_file := Some ''v.xml'',
                     disk := [''v.xml'' \<mapsto> xml_template],
                     segment_start_time := Some clock, segment_index := Some 1\<rparr>)"
  by (simp add: started_fields open_output_def generate_filename_def truthy_def Let_def
      create_danmu_file_def example_lib_def)

lemma write_started:
  "clock \<noteq> 0 \<Longrightarrow>
   write_danmu example_lib clock u c t started
     = started\<lparr>current_segment_file := Some ''v.xml'',
               disk := [''v.xml'' \<mapsto> concat (insert_danmu (readlines xml_template)
                                               (danmu_line (t - clock) t u c))],
               segment_start_time := Some clock, segment_index := Some 1,
               danmu_amount := 1, last_danmu_time := t\<rparr>"
  by (simp add: write_danmu_def open_output_started locked_write_def offset_basis_def
      target_file_def truthy_def Let_def started_fields del: concat.simps)

lemma line_session:
  \<open>danmu_line 5 1005 ''alice'' ''hi''
     = ''  <d p="5.0,1,25,16777215,1005000,0,1602022773,0" user="alice">hi</d>\<newline>''\<close>
  by (simp add: danmu_line_def str_round2_def round_half_even_def str_int_def py_int_def
      digits.simps)

lemma line_segment: "danmu_line 0 1005 ''alice'' ''hi'' = line_alice"
  by (simp add: danmu_line_def str_round2_def round_half_even_def str_int_def py_int_def
      digits.simps line_alice_def)

lemma line_bob:
  \<open>danmu_line 0 1010 ''bob'' ''yo''
     = ''  <d p="0.0,1,25,16777215,1010000,0,1602022773,0" user="bob">yo</d>\<newline>''\<close>
  by (simp add: danmu_line_def str_round2_def round_half_even_def str_int_def py_int_def
      digits.simps)

lemma line_bad: "danmu_line 5 1010 ''bob'' ''x\<newline>  <d y'' = line_split1 @ line_split2"
  by (simp add: danmu_line_def str_round2_def round_half_even_def str_int_def py_int_def
      digits.simps line_split1_def line_split2_def)

text \<open>
  The second scenario of the specification: a comment of \<open>alice\<close> 3.14 seconds after
  the start of the segment.
\<close>

lemma line_scenario_b:
  \<open>danmu_line (1008.14 - 1005) 1008.14 ''alice'' ''hi''
     = ''  <d p="3.14,1,25,16777215,1008140,0,1602022773,0" user="alice">hi</d>\<newline>''\<close>
  by (simp add: danmu_line_def str_round2_def round_half_even_def str_int_def py_int_def
      digits.simps)

lemma recording_fields:
  "current_segment_file recording = Some ''v.xml''" "segment_start_time recording = Some 1005"
  "disk recording ''v.xml'' = Some (concat (header_lines @ [line_alice, ''</i>\<newline>'']))"
  "danmu_amount recording = 1"
  using insert_after_header [of "[]" line_alice]
  by (simp_all add: recording_def write_started xml_lines line_segment del: concat.simps)

lemma segment_open_recording: "segment_open ''v.xml'' 1005 recording"
  by (simp add: segment_open_def recording_fields)

lemma file_removed_fields:
  "current_segment_file file_removed = Some ''v.xml''"
  "segment_start_time file_removed = Some 1005"
  "disk file_removed ''v.xml'' = None" "danmu_amount file_removed = 1"
  by (simp_all add: file_removed_def recording_fields)

subsection \<open>What \<open>write_danmu\<close> does in each state\<close>

lemma open_output_keeps:
  "truthy (filename s) \<or> truthy (current_segment_file s) \<Longrightarrow> open_output lib clock s = Some s"
  by (auto simp: open_output_def)

lemma target_file_truthy:
  "target_file s = Some f \<Longrightarrow> truthy (filename s) \<or> truthy (current_segment_file s)"
  by (auto simp: target_file_def split: if_splits)

lemma write_danmu_open_segment:
  assumes "segment_open f t0 s" and "disk s f = Some old"
  shows "write_danmu lib clock user content timestamp s
           = s\<lparr>disk := (disk s)(f \<mapsto> concat (insert_danmu (readlines old)
                              (danmu_line (timestamp - t0) timestamp user content))),
                danmu_amount := danmu_amount s + 1, last_danmu_time := timestamp\<rparr>"
  using assms
  by (simp add: segment_open_def write_danmu_def open_output_def locked_write_def
      offset_basis_def target_file_def truthy_def Let_def)

text \<open>
  The branch of lines 352-354 and 359-361: a recorder that holds \<open>filename\<close> and no
  segment file counts the offset from \<open>start_time_t\<close>.
\<close>

lemma write_danmu_plain_file:
  assumes "filename s = Some f" and "f \<noteq> []" and "\<not> truthy (current_segment_file s)"
    and "start_time_t s = Some t" and "disk s f = Some old"
  shows "write_danmu lib clock user content timestamp s
           = s\<lparr>disk := (disk s)(f \<mapsto> concat (insert_danmu (readlines old)
                              (danmu_line (timestamp - real_of_int t) timestamp user content))),
                danmu_amount := danmu_amount s + 1, last_danmu_time := timestamp\<rparr>"
  using assms
  by (simp add: write_danmu_def open_output_def locked_write_def
      offset_basis_def target_file_def truthy_def Let_def)

text \<open>
  A recorder as \<open>__init__\<close> and \<open>start\<close> leave it has a segment index, with and
  without segmentation, so its first comment takes the branch of lines 326-332 and
  never the one of lines 338-342.
\<close>

lemma start_keeps_segment_index:
  "segment_index s \<noteq> None \<Longrightarrow>
   segment_index (fst (start room_json now ws_url enable_segment segment_time s)) \<noteq> None"
  by (simp add: start_def Let_def split: option.splits)

lemma first_comment_opens_segment:
  assumes "segment_index s \<noteq> None" and "\<not> truthy (filename s)"
    and "\<not> truthy (current_segment_file s)" and "open_output lib clock s = Some s'"
  shows "filename s' = filename s \<and> truthy (current_segment_file s')
       \<and> segment_start_time s' = Some clock"
  using assms
  by (auto simp: open_output_def Let_def create_danmu_file_def generate_filename_def
      split: if_splits)

text \<open>
  C6.  The claim: with segmentation the offset of a comment is counted from the start
  of the segment, without it from the start of the session.  The line has the stated
  form (\<open>danmu_line\<close>, \<open>line_scenario_b\<close>), and both bases exist in \<open>write_danmu\<close>
  (\<open>write_danmu_open_segment\<close>, \<open>write_danmu_plain_file\<close>), but the second is not
  reached: \<open>__init__\<close> sets \<open>segment_index\<close> to 0 and \<open>start\<close> without segmentation
  leaves it, so the test of line 324 always chooses the segment.  The recorder
  \<open>started\<close> was started without segmentation at second 1000; its first comment
  arrives at second 1005.  The line written has the offset 0.0, counted from the
  creation of the file, where the session basis gives 5.0.
\<close>

theorem offset_counted_from_segment_without_segmentation:
  \<open>disk (write_danmu example_lib 1005 ''alice'' ''hi'' 1005 started) ''v.xml''
     = Some (concat (header_lines @
         [''  <d p="0.0,1,25,16777215,1005000,0,1602022773,0" user="alice">hi</d>\<newline>'',
          ''</i>\<newline>'']))
   \<and> start_time_t started = Some 1000
   \<and> danmu_line (1005 - 1000) 1005 ''alice'' ''hi''
     = ''  <d p="5.0,1,25,16777215,1005000,0,1602022773,0" user="alice">hi</d>\<newline>''\<close>
proof -
  have "disk (write_danmu example_lib 1005 ''alice'' ''hi'' 1005 started) ''v.xml''
     = Some (concat (insert_danmu (header_lines @ [] @ [''</i>\<newline>''])
                       (danmu_line 0 1005 ''alice'' ''hi'')))"
    by (simp add: write_started xml_lines del: concat.simps)
  then show ?thesis
    unfolding insert_after_header line_segment
    by (simp add: started_fields line_session line_alice_def del: concat.simps)
qed

text \<open>
  C10.  When the recorder holds a file name, the instant to count from is there (the
  recorder sets it with the name) and the file is not on the disk, \<open>write_danmu\<close>
  writes nothing and still counts the comment and notes its time.  The counter then
  exceeds the number of lines written.
\<close>

theorem write_danmu_counts_without_file:
  assumes "target_file s = Some f" and "disk s f = None" and "offset_basis s = Inr basis"
  shows "write_danmu lib clock user content timestamp s
           = s\<lparr>danmu_amount := danmu_amount s + 1, last_danmu_time := timestamp\<rparr>"
  using assms open_output_keeps [OF target_file_truthy [OF assms(1)], of lib clock]
  by (simp add: write_danmu_def locked_write_def Let_def)

theorem write_danmu_counts_without_file_witness:
  "target_file file_removed = Some ''v.xml'' \<and> disk file_removed ''v.xml'' = None
   \<and> offset_basis file_removed = Inr 1005
   \<and> danmu_amount (write_danmu example_lib 1010 ''bob'' ''yo'' 1010 file_removed) = 2
   \<and> disk (write_danmu example_lib 1010 ''bob'' ''yo'' 1010 file_removed) ''v.xml'' = None"
proof -
  have 1: "target_file file_removed = Some ''v.xml''"
    by (simp add: target_file_def truthy_def file_removed_fields)
  have 2: "disk file_removed ''v.xml'' = None" by (simp add: file_removed_fields)
  have 3: "offset_basis file_removed = Inr 1005"
    by (simp add: offset_basis_def truthy_def file_removed_fields)
  from write_danmu_counts_without_file [OF 1 2 3, of example_lib 1010 "''bob''" "''yo''" 1010]
    1 2 3
  show ?thesis by (simp add: file_removed_fields)
qed

text \<open>
  C4.  The claim: a comment that arrives while no file name can be generated is kept
  in memory and written once a name is there.  The code returns at lines 335 and 345
  instead, and the recorder has no attribute to keep a comment in: \<open>alice\<close>'s comment
  leaves the waiting recorder exactly as it was, and after the video file name is set
  the file that \<open>bob\<close>'s comment creates holds \<open>bob\<close>'s line only.
\<close>

theorem comment_before_file_name_is_lost:
  \<open>write_danmu example_lib 1005 ''alice'' ''hi'' 1005 waiting = waiting
   \<and> disk (write_danmu example_lib 1010 ''bob'' ''yo'' 1010
            (set_video_filename (Some ''v.mp4'')
               (write_danmu example_lib 1005 ''alice'' ''hi'' 1005 waiting))) ''v.xml''
     = Some (concat (header_lines @
         [''  <d p="0.0,1,25,16777215,1010000,0,1602022773,0" user="bob">yo</d>\<newline>'',
          ''</i>\<newline>'']))\<close>
proof -
  have a: "write_danmu example_lib 1005 ''alice'' ''hi'' 1005 waiting = waiting"
    by (simp add: write_danmu_def open_output_def generate_filename_def Let_def truthy_def
        waiting_fields)
  have "insert_danmu (header_lines @ [] @ [''</i>\<newline>'']) (danmu_line 0 1010 ''bob'' ''yo'')
      = header_lines @ [] @ [danmu_line 0 1010 ''bob'' ''yo'', ''</i>\<newline>'']"
    by (rule insert_after_header)
  then show ?thesis
    by (simp add: a set_video_waiting write_started xml_lines line_bob del: concat.simps)
qed

text \<open>
  C4 as amended.  While no video file name is set and no file is open, \<open>write_danmu\<close>
  returns with the recorder and every file unchanged: the comment is dropped, not
  buffered, and it is not counted.
\<close>

theorem write_danmu_without_file_name_changes_nothing:
  assumes "\<not> truthy (video_filename s)" and "\<not> truthy (filename s)"
    and "\<not> truthy (current_segment_file s)"
  shows "write_danmu lib clock user content timestamp s = s"
  using assms
  by (simp add: write_danmu_def open_output_def generate_filename_def Let_def truthy_def)

theorem write_danmu_without_file_name_changes_nothing_witness:
  "\<not> truthy (video_filename waiting) \<and> \<not> truthy (filename waiting)
   \<and> \<not> truthy (current_segment_file waiting)
   \<and> write_danmu example_lib 1005 ''alice'' ''hi'' 1005 waiting = waiting"
proof -
  have 1: "\<not> truthy (video_filename waiting)" by (simp add: truthy_def waiting_fields)
  have 2: "\<not> truthy (filename waiting)" by (simp add: truthy_def waiting_fields)
  have 3: "\<not> truthy (current_segment_file waiting)" by (simp add: truthy_def waiting_fields)
  from write_danmu_without_file_name_changes_nothing
         [OF 1 2 3, of example_lib 1005 "''alice''" "''hi''" 1005] 1 2 3
  show ?thesis by simp
qed

subsection \<open>Close events\<close>

lemma on_close_retry:
  "\<not> stop_signal s \<Longrightarrow> retry s < max_retry s \<Longrightarrow>
   on_close s = (s\<lparr>retry := retry s + 1\<rparr>, [Sleep 2])"
  by (simp add: on_close_def)

lemma on_close_exhausted:
  "\<not> stop_signal s \<Longrightarrow> \<not> retry s < max_retry s \<Longrightarrow> on_close s = (s, [])"
  by (simp add: on_close_def)

lemma closes_exhausted:
  "\<not> stop_signal s \<Longrightarrow> \<not> retry s < max_retry s \<Longrightarrow> closes n s = (s, [])"
  by (induction n) (simp_all add: on_close_exhausted)

lemma closes_general:
  "\<not> stop_signal s \<Longrightarrow> retry s \<le> max_retry s \<Longrightarrow>
   closes n s = (s\<lparr>retry := retry s + int (min n (nat (max_retry s - retry s)))\<rparr>,
                 replicate (min n (nat (max_retry s - retry s))) (Sleep 2))"
proof (induction n arbitrary: s)
  case 0
  then show ?case by simp
next
  case (Suc n)
  show ?case
  proof (cases "retry s < max_retry s")
    case True
    let ?s1 = "s\<lparr>retry := retry s + 1\<rparr>"
    have a: "\<not> stop_signal ?s1" "retry ?s1 \<le> max_retry ?s1"
      using Suc.prems True by simp_all
    have m: "min (Suc n) (nat (max_retry s - retry s))
               = Suc (min n (nat (max_retry s - (retry s + 1))))"
      using True by linarith
    show ?thesis
      using Suc.IH [OF a] on_close_retry [OF Suc.prems(1) True] m by simp
  next
    case False
    with Suc.prems have "retry s = max_retry s" by simp
    with closes_exhausted [OF Suc.prems(1) False, of "Suc n"] show ?thesis by simp
  qed
qed

text \<open>The close callback of the demonstration script, below and at its bound.\<close>

lemma demo_on_close_retry:
  "\<not> demo_stop_signal s \<Longrightarrow> demo_retry s < 3 \<Longrightarrow>
   snd (demo_on_close s) = [Sleep 2, CallStart]
   \<and> demo_retry (fst (demo_on_close s)) = demo_retry s + 1"
  by (simp add: demo_on_close_def Let_def split: option.splits)

lemma demo_on_close_exhausted:
  "\<not> demo_retry s < 3 \<Longrightarrow>
   snd (demo_on_close s) = [] \<and> demo_retry (fst (demo_on_close s)) = demo_retry s
   \<and> demo_stop_signal (fst (demo_on_close s)) = demo_stop_signal s"
  by (simp add: demo_on_close_def Let_def split: option.splits)

text \<open>
  C5.  The claim: after a close that the user did not ask for, the recorder connects
  again, at most three times and two seconds apart, and past the bound it stops and
  reports a failure.  The close callback of the recorder counts and pauses, and that
  is all: the first close of the started recorder has the pause as its only effect
  and leaves the socket object as it is, and a close at the bound changes nothing
  and has no effect, the stop flag still not set.
\<close>

theorem on_close_neither_reconnects_nor_fails:
  "on_close started = (started\<lparr>retry := 1\<rparr>, [Sleep 2])
   \<and> ws (fst (on_close started)) = ws started
   \<and> on_close (started\<lparr>retry := 3\<rparr>) = (started\<lparr>retry := 3\<rparr>, [])
   \<and> \<not> stop_signal (started\<lparr>retry := 3\<rparr>)"
  by (simp add: on_close_def started_fields)

text \<open>
  C5 as amended.  For a recorder whose stop flag is not set and whose bound is 3, a
  run of \<open>n\<close> close events counts the closes up to the bound and pauses two seconds
  for each one counted; nothing else changes and nothing else happens, so the
  callback opens no connection, and past the bound a close is ignored: no stopped
  state is entered and no failure is reported.
\<close>

theorem on_close_counts_and_pauses_up_to_bound:
  assumes "\<not> stop_signal s" and "max_retry s = 3" and "retry s \<le> 3"
  shows "closes n s = (s\<lparr>retry := retry s + int (min n (nat (3 - retry s)))\<rparr>,
                       replicate (min n (nat (3 - retry s))) (Sleep 2))"
  using closes_general [of s n] assms by simp

theorem on_close_counts_and_pauses_up_to_bound_witness:
  "\<not> stop_signal started \<and> max_retry started = 3 \<and> retry started \<le> 3
   \<and> closes 5 started = (started\<lparr>retry := 3\<rparr>, [Sleep 2, Sleep 2, Sleep 2])"
proof -
  have 1: "\<not> stop_signal started" and 2: "max_retry started = 3" and 3: "retry started \<le> 3"
    by (simp_all add: started_fields)
  from on_close_counts_and_pauses_up_to_bound [OF 1 2 3, of 5] 1 2 3
  show ?thesis by (simp add: started_fields numeral_3_eq_3)
qed

subsection \<open>Reading a text by lines\<close>

lemma universal_newlines_no_cr: "CHR 0x0D \<notin> set (universal_newlines t)"
  by (induction t rule: universal_newlines.induct) (auto split: list.splits)

lemma universal_newlines_id: "CHR 0x0D \<notin> set t \<Longrightarrow> universal_newlines t = t"
  by (induction t rule: universal_newlines.induct) (auto split: list.splits)

lemma concat_split_lines: "concat (split_lines t) = t"
  by (induction t) (auto split: list.splits)

lemma split_lines_Nil_iff: "split_lines t = [] \<longleftrightarrow> t = []"
  by (cases t) (auto split: list.splits)

lemma split_lines_full_line:
  "CHR 0x0A \<notin> set p \<Longrightarrow> split_lines (p @ CHR 0x0A # r) = (p @ [CHR 0x0A]) # split_lines r"
  by (induction p) auto

lemma split_lines_partial_line:
  "CHR 0x0A \<notin> set p \<Longrightarrow> p \<noteq> [] \<Longrightarrow> split_lines p = [p]"
proof (induction p)
  case Nil
  then show ?case by simp
next
  case (Cons a p)
  show ?case
  proof (cases "p = []")
    case True
    with Cons.prems show ?thesis by auto
  next
    case False
    with Cons have "split_lines p = [p]" by simp
    with Cons.prems show ?thesis by auto
  qed
qed

lemma full_lineD: "full_line l \<Longrightarrow> \<exists>p. l = p @ [CHR 0x0A] \<and> CHR 0x0A \<notin> set p"
  unfolding full_line_def by (metis append_butlast_last_id)

lemma split_lines_concat_full:
  "\<forall>l \<in> set ls. full_line l \<Longrightarrow> split_lines (concat ls @ r) = ls @ split_lines r"
proof (induction ls)
  case Nil
  then show ?case by simp
next
  case (Cons l ls)
  then obtain p where p: "l = p @ [CHR 0x0A]" "CHR 0x0A \<notin> set p"
    using full_lineD by auto
  have "split_lines (concat (l # ls) @ r) = split_lines (p @ CHR 0x0A # (concat ls @ r))"
    using p by simp
  also have "\<dots> = l # split_lines (concat ls @ r)"
    using p by (simp add: split_lines_full_line)
  finally show ?case using Cons by simp
qed

lemma split_lines_last_line: "last_line l \<Longrightarrow> split_lines l = [l]"
proof -
  assume "last_line l"
  then consider "full_line l" | "l \<noteq> []" "CHR 0x0A \<notin> set l" unfolding last_line_def by blast
  then show ?thesis
  proof cases
    case 1
    then obtain p where p: "l = p @ [CHR 0x0A]" "CHR 0x0A \<notin> set p" using full_lineD by auto
    then show ?thesis using split_lines_full_line [of p "[]"] by simp
  next
    case 2
    then show ?thesis by (simp add: split_lines_partial_line)
  qed
qed

lemma split_lines_shape:
  "split_lines t = ls \<Longrightarrow> ls \<noteq> [] \<Longrightarrow> (\<forall>l \<in> set (butlast ls). full_line l) \<and> last_line (last ls)"
proof (induction t arbitrary: ls)
  case Nil
  then show ?case by simp
next
  case (Cons c cs)
  show ?case
  proof (cases "c = CHR 0x0A")
    case True
    with Cons.prems have ls: "ls = [c] # split_lines cs" by simp
    have f: "full_line [c]" using True by (simp add: full_line_def)
    show ?thesis
    proof (cases "split_lines cs = []")
      case True
      with ls f show ?thesis by (simp add: last_line_def)
    next
      case False
      with Cons.IH [OF refl False] ls f show ?thesis by auto
    qed
  next
    case False
    show ?thesis
    proof (cases "split_lines cs")
      case Nil
      with Cons.prems False have "ls = [[c]]" by simp
      with False show ?thesis by (simp add: last_line_def)
    next
      case (Cons l ls')
      with Cons.prems False have ls: "ls = (c # l) # ls'" by simp
      from Cons.IH [of "l # ls'"] Cons
      have ih: "(\<forall>x \<in> set (butlast (l # ls')). full_line x) \<and> last_line (last (l # ls'))" by simp
      show ?thesis
      proof (cases ls')
        case Nil
        with ih have "last_line l" by simp
        then have "last_line (c # l)" using False
          by (auto simp: last_line_def full_line_def)
        with ls Nil show ?thesis by simp
      next
        case (Cons a as)
        with ih have "full_line l" by simp
        then have "full_line (c # l)" using False by (auto simp: full_line_def)
        with ih ls Cons show ?thesis by auto
      qed
    qed
  qed
qed

lemma digits_chars: "set (digits n) \<subseteq> set ''0123456789''"
proof (induction n rule: digits.induct)
  case (1 n)
  show ?case
  proof (cases "n < 10")
    case True
    then have "''0123456789'' ! n \<in> set ''0123456789''" by (intro nth_mem) simp
    with True show ?thesis by (subst digits.simps) simp
  next
    case False
    have "''0123456789'' ! (n mod 10) \<in> set ''0123456789''" by (intro nth_mem) simp
    with False 1 show ?thesis by (subst digits.simps) simp
  qed
qed

lemma no_linebreak_digits: "no_linebreak (digits n)"
  using digits_chars [of n] by (auto simp: no_linebreak_def)

lemma no_linebreak_str_int: "no_linebreak (str_int i)"
  using no_linebreak_digits [of "nat i"] no_linebreak_digits [of "nat (- i)"]
  by (auto simp: str_int_def no_linebreak_def)

lemma no_linebreak_str_round2: "no_linebreak (str_round2 x)"
  using no_linebreak_digits [of "nat \<bar>round_half_even (x * 100)\<bar> div 100"]
    no_linebreak_digits [of "nat \<bar>round_half_even (x * 100)\<bar> mod 100 div 10"]
    no_linebreak_digits [of "nat \<bar>round_half_even (x * 100)\<bar> mod 10"]
  by (simp add: str_round2_def Let_def no_linebreak_def)

lemma danmu_line_shape:
  assumes "no_linebreak user" "no_linebreak content"
  shows "\<exists>p. danmu_line second timestamp user content = p @ [CHR 0x0A] \<and> no_linebreak p"
proof -
  have \<open>danmu_line second timestamp user content =
     (''  <d p="'' @ str_round2 second @ '',1,25,16777215,''
     @ str_int (py_int (timestamp * 1000)) @ '',0,1602022773,0" user="'' @ user
     @ ''">'' @ content @ ''</d>'') @ [CHR 0x0A]\<close>
    by (simp add: danmu_line_def)
  moreover have \<open>no_linebreak (''  <d p="'' @ str_round2 second @ '',1,25,16777215,''
     @ str_int (py_int (timestamp * 1000)) @ '',0,1602022773,0" user="'' @ user
     @ ''">'' @ content @ ''</d>'')\<close>
    using assms no_linebreak_str_int [of "py_int (timestamp * 1000)"]
      no_linebreak_str_round2 [of second]
    by (simp add: no_linebreak_def)
  ultimately show ?thesis by blast
qed

lemma danmu_line_full:
  "no_linebreak user \<Longrightarrow> no_linebreak content \<Longrightarrow> full_line (danmu_line second timestamp user content)"
  using danmu_line_shape [of user content second timestamp]
  by (auto simp: full_line_def no_linebreak_def)

lemma danmu_line_no_cr:
  "no_linebreak user \<Longrightarrow> no_linebreak content \<Longrightarrow> CHR 0x0D \<notin> set (danmu_line second timestamp user content)"
  using danmu_line_shape [of user content second timestamp]
  by (auto simp: no_linebreak_def)

lemma danmu_line_is_comment: "is_comment_line (danmu_line second timestamp user content)"
  by (simp add: is_comment_line_def danmu_line_def py_isspace_def)

text \<open>Reading back what \<open>write_danmu\<close> writes into a file that ends with a closing line.\<close>

lemma readlines_after_insert:
  assumes ne: "readlines txt \<noteq> []"
    and full: "full_line l" and nocr: "CHR 0x0D \<notin> set l"
  shows "readlines (concat (butlast (readlines txt) @ [l, last (readlines txt)]))
           = butlast (readlines txt) @ [l, last (readlines txt)]"
proof -
  let ?u = "universal_newlines txt"
  let ?ls = "split_lines ?u"
  have ls: "?ls \<noteq> []" using ne by (simp add: readlines_def)
  from split_lines_shape [OF refl ls]
  have shape: "\<forall>x \<in> set (butlast ?ls). full_line x" "last_line (last ?ls)" by simp_all
  have "set (concat ?ls) = set ?u" by (simp add: concat_split_lines)
  then have nocr_ls: "\<forall>x \<in> set ?ls. CHR 0x0D \<notin> set x"
    using universal_newlines_no_cr [of "txt"] by auto
  have mem: "set (butlast ?ls) \<subseteq> set ?ls" by (auto dest: in_set_butlastD)
  have lastmem: "last ?ls \<in> set ?ls" using ls by simp
  let ?new = "butlast ?ls @ [l, last ?ls]"
  have "CHR 0x0D \<notin> set (concat ?new)"
    using nocr_ls nocr mem lastmem by auto
  then have "universal_newlines (concat ?new) = concat ?new"
    by (rule universal_newlines_id)
  moreover have "split_lines (concat ?new) = ?new"
  proof -
    have "concat ?new = concat (butlast ?ls @ [l]) @ last ?ls" by simp
    moreover have "\<forall>x \<in> set (butlast ?ls @ [l]). full_line x" using shape full by auto
    ultimately have "split_lines (concat ?new) = (butlast ?ls @ [l]) @ split_lines (last ?ls)"
      by (simp only: split_lines_concat_full)
    then show ?thesis using split_lines_last_line [OF shape(2)] by simp
  qed
  ultimately show ?thesis by (simp add: readlines_def)
qed

subsection \<open>Appending to an open segment\<close>

lemma complete_template: "complete_document xml_template"
  by (simp add: complete_document_def xml_lines strip_close) (simp add: header_lines_def)

lemma readlines_concat_full:
  "\<forall>l \<in> set ls. full_line l \<and> CHR 0x0D \<notin> set l \<Longrightarrow> readlines (concat ls) = ls"
  using split_lines_concat_full [of ls "[]"] universal_newlines_id [of "concat ls"]
  by (auto simp: readlines_def)

lemma full_header: "\<forall>l \<in> set header_lines. full_line l \<and> CHR 0x0D \<notin> set l"
  by (simp add: header_lines_def full_line_def)

lemma full_alice: "full_line line_alice \<and> CHR 0x0D \<notin> set line_alice"
  by (simp add: line_alice_def full_line_def)

lemma full_close: "full_line ''</i>\<newline>'' \<and> CHR 0x0D \<notin> set ''</i>\<newline>''"
  by (simp add: full_line_def)

lemma recording_lines:
  "readlines (concat (header_lines @ [line_alice, ''</i>\<newline>''])) = header_lines @ [line_alice, ''</i>\<newline>'']"
  using full_header full_alice full_close by (intro readlines_concat_full) auto

lemma complete_recording: "complete_document (concat (header_lines @ [line_alice, ''</i>\<newline>'']))"
  unfolding complete_document_def recording_lines
  by (simp add: strip_close) (simp add: header_lines_def)

lemma full_split: "full_line line_split1 \<and> CHR 0x0D \<notin> set line_split1"
   "full_line line_split2 \<and> CHR 0x0D \<notin> set line_split2"
  by (simp_all add: line_split1_def line_split2_def full_line_def)

lemma comment_flags:
  "filter is_comment_line header_lines = []" "is_comment_line line_alice"
  "is_comment_line line_split1" "is_comment_line line_split2" "\<not> is_comment_line ''</i>\<newline>''"
  by (simp_all add: header_lines_def is_comment_line_def py_isspace_def line_alice_def
      line_split1_def line_split2_def)

lemma complete_document_insert:
  fixes second timestamp :: real
  assumes c: "complete_document old"
    and u: "no_linebreak user" and v: "no_linebreak content"
  defines "l \<equiv> danmu_line second timestamp user content"
  defines "new \<equiv> concat (insert_danmu (readlines old) l)"
  shows "readlines new = butlast (readlines old) @ [l, last (readlines old)]"
    and "complete_document new"
    and "length (comment_lines new) = length (comment_lines old) + 1"
proof -
  let ?ls = "readlines old"
  from c have len: "4 \<le> length ?ls" and hd: "take 3 ?ls = header_lines"
    and cl: "py_strip (last ?ls) = ''</i>''"
    by (simp_all add: complete_document_def)
  from len have ne: "?ls \<noteq> []" by auto
  have ins: "insert_danmu ?ls l = butlast ?ls @ [l, last ?ls]"
    using ne cl by (simp add: insert_danmu_def)
  have full: "full_line l" and nocr: "CHR 0x0D \<notin> set l"
    using u v by (simp_all add: l_def danmu_line_full danmu_line_no_cr)
  show r: "readlines new = butlast ?ls @ [l, last ?ls]"
    unfolding new_def ins using readlines_after_insert [OF ne full nocr] .
  have "take 3 (butlast ?ls @ [l, last ?ls]) = take 3 ?ls"
    using len by (simp add: take_butlast)
  then show "complete_document new"
    using r len hd cl by (simp add: complete_document_def)
  have "?ls = butlast ?ls @ [last ?ls]" using ne by simp
  then have "filter is_comment_line ?ls
               = filter is_comment_line (butlast ?ls) @ filter is_comment_line [last ?ls]"
    by (metis filter_append)
  moreover have "is_comment_line l" by (simp add: l_def danmu_line_is_comment)
  ultimately show "length (comment_lines new) = length (comment_lines old) + 1"
    by (simp add: comment_lines_def r)
qed

subsection \<open>Reading a text as XML\<close>

lemmas xml_eval = is_xml_space_def is_name_start_def is_name_char_def pi_ok_def
  open_element_def close_element_def

lemma attr_value_run:
  "CHR 0x22 \<notin> set v \<Longrightarrow> CHR ''<'' \<notin> set v \<Longrightarrow> CHR ''&'' \<notin> set v \<Longrightarrow>
   foldl xml_step (AttrValue n attrs, stack) v = (AttrValue n attrs, stack)"
  by (induction v) auto

lemma has_cdata_end_Cons: "has_cdata_end t \<Longrightarrow> has_cdata_end (c # t)"
proof (cases t)
  case Nil
  then show "has_cdata_end t \<Longrightarrow> ?thesis" by simp
next
  case (Cons a r)
  show "has_cdata_end t \<Longrightarrow> ?thesis"
  proof (cases r)
    case Nil
    with Cons show "has_cdata_end t \<Longrightarrow> ?thesis" by simp
  next
    case (Cons b r')
    with \<open>t = a # r\<close> show "has_cdata_end t \<Longrightarrow> ?thesis" by simp
  qed
qed

lemma has_cdata_end_append: "has_cdata_end t \<Longrightarrow> has_cdata_end (p @ t)"
  by (induction p) (simp_all add: has_cdata_end_Cons)

lemma text_run:
  "CHR ''<'' \<notin> set t \<Longrightarrow> CHR ''&'' \<notin> set t \<Longrightarrow> k \<le> 2 \<Longrightarrow>
   \<not> has_cdata_end (replicate k CHR '']'' @ t) \<Longrightarrow>
   \<exists>k'. foldl xml_step (Text k, stack) t = (Text k', stack)"
proof (induction t arbitrary: k)
  case Nil
  then show ?case by simp
next
  case (Cons c t)
  have lt: "CHR ''<'' \<notin> set t" "CHR ''&'' \<notin> set t" "c \<noteq> CHR ''<''" "c \<noteq> CHR ''&''"
    using Cons.prems by auto
  have tail: "\<not> has_cdata_end t"
    using Cons.prems(4) has_cdata_end_append [of t "replicate k CHR '']'' @ [c]"] by auto
  show ?case
  proof (cases "c = CHR '']''")
    case True
    have "\<not> has_cdata_end (replicate (min 2 (k + 1)) CHR '']'' @ t)"
    proof (cases "k = 2")
      case True
      have "replicate k CHR '']'' @ c # t = CHR '']'' # (replicate 2 CHR '']'' @ t)"
        using True \<open>c = CHR '']''\<close> by (simp add: numeral_2_eq_2)
      with Cons.prems(4) have "\<not> has_cdata_end (CHR '']'' # (replicate 2 CHR '']'' @ t))" by simp
      then have "\<not> has_cdata_end (replicate 2 CHR '']'' @ t)"
        using has_cdata_end_Cons by blast
      with True show ?thesis by simp
    next
      case False
      with Cons.prems(3) have m: "min 2 (k + 1) = Suc k" by simp
      have "replicate k CHR '']'' @ CHR '']'' # t = CHR '']'' # replicate k CHR '']'' @ t"
        by (rule replicate_app_Cons_same)
      with Cons.prems(4) \<open>c = CHR '']''\<close>
      have "\<not> has_cdata_end (replicate (Suc k) CHR '']'' @ t)" by simp
      then show ?thesis unfolding m .
    qed
    from Cons.IH [OF lt(1,2) _ this] True lt show ?thesis by simp
  next
    case False
    show ?thesis
    proof (cases "c = CHR ''>'' \<and> 2 \<le> k")
      case True
      with Cons.prems(3) have "k = 2" by simp
      with True have "has_cdata_end (replicate k CHR '']'' @ c # t)"
        by (simp add: numeral_2_eq_2)
      with Cons.prems(4) show ?thesis by simp
    next
      case nb: False
      have "\<not> has_cdata_end (replicate 0 CHR '']'' @ t)" using tail by simp
      from Cons.IH [OF lt(1,2) _ this] False nb lt show ?thesis by auto
    qed
  qed
qed

lemma character_data_run:
  "character_data t \<Longrightarrow> \<exists>k'. foldl xml_step (Text 0, stack) t = (Text k', stack)"
  using text_run [of t 0 stack] by (simp add: character_data_def)

lemma number_char_digit: "c \<in> set ''0123456789'' \<Longrightarrow> number_char c"
  unfolding number_char_def by simp (elim disjE, simp_all)

lemma number_chars_digits: "list_all number_char (digits n)"
  using digits_chars [of n] number_char_digit unfolding list_all_iff by blast

lemma number_char_signs: "number_char CHR ''-''" "number_char CHR ''.''"
  by (simp_all add: number_char_def)

lemma number_chars_str_int: "list_all number_char (str_int i)"
  by (simp add: str_int_def number_chars_digits number_char_signs)

lemma number_chars_str_round2: "list_all number_char (str_round2 x)"
  by (simp add: str_round2_def Let_def number_chars_digits number_char_signs)

lemma number_char_plain:
  "number_char c \<Longrightarrow> c \<noteq> CHR 0x22 \<and> c \<noteq> CHR ''<'' \<and> c \<noteq> CHR ''&''"
  unfolding number_char_def by simp (elim disjE, simp_all)

lemma number_char_utf8: "number_char c \<Longrightarrow> utf8_step UStart c = UStart"
  unfolding number_char_def by simp (elim disjE, simp_all)

lemma number_attr_run:
  "list_all number_char v \<Longrightarrow>
   foldl xml_step (AttrValue n attrs, stack) v = (AttrValue n attrs, stack)"
  using number_char_plain by (intro attr_value_run) (auto simp: list_all_iff)

lemma number_utf8_run: "list_all number_char v \<Longrightarrow> foldl utf8_step UStart v = UStart"
  by (induction v) (simp_all add: number_char_utf8 del: utf8_step.simps)

lemma danmu_line_xml_run:
  assumes u: "attribute_text user" and c: "character_data content"
  shows "foldl xml_step (Text 0, [''i'']) (danmu_line second timestamp user content)
           = (Text 0, [''i''])"
proof -
  have 1: \<open>foldl xml_step (Text 0, [''i'']) ''  <d p="'' = (AttrValue ''d'' [''p''], [''i''])\<close>
    by (simp add: xml_eval)
  have 2: \<open>foldl xml_step (AttrValue ''d'' [''p''], [''i'']) '',1,25,16777215,''
             = (AttrValue ''d'' [''p''], [''i''])\<close>
    by simp
  have 3: \<open>foldl xml_step (AttrValue ''d'' [''p''], [''i'']) '',0,1602022773,0" user="''
             = (AttrValue ''d'' [''user'', ''p''], [''i''])\<close>
    by (simp add: xml_eval)
  have 4: "foldl xml_step (AttrValue ''d'' [''user'', ''p''], [''i'']) user
             = (AttrValue ''d'' [''user'', ''p''], [''i''])"
    using u by (simp add: attribute_text_def attr_value_run)
  have 5: \<open>foldl xml_step (AttrValue ''d'' [''user'', ''p''], [''i'']) ''">''
             = (Text 0, [''d'', ''i''])\<close>
    by (simp add: xml_eval)
  obtain k where 6: "foldl xml_step (Text 0, [''d'', ''i'']) content = (Text k, [''d'', ''i''])"
    using character_data_run [OF c] by blast
  have 7: "foldl xml_step (Text k, [''d'', ''i'']) ''</d>\<newline>'' = (Text 0, [''i''])"
    by (simp add: xml_eval)
  have r: "foldl xml_step (AttrValue ''d'' [''p''], [''i'']) (str_round2 second)
             = (AttrValue ''d'' [''p''], [''i''])"
    by (rule number_attr_run [OF number_chars_str_round2])
  have i: "foldl xml_step (AttrValue ''d'' [''p''], [''i'']) (str_int (py_int (timestamp * 1000)))
             = (AttrValue ''d'' [''p''], [''i''])"
    by (rule number_attr_run [OF number_chars_str_int])
  show ?thesis
    by (simp only: danmu_line_def foldl_append 1 r 2 i 3 4 5 6 7)
qed

lemma danmu_line_xml_chars:
  assumes u: "attribute_text user" and c: "character_data content"
  shows "xml_chars (danmu_line second timestamp user content)"
proof -
  have a: \<open>foldl utf8_step UStart ''  <d p="'' = UStart\<close>
    \<open>foldl utf8_step UStart '',1,25,16777215,'' = UStart\<close>
    \<open>foldl utf8_step UStart '',0,1602022773,0" user="'' = UStart\<close>
    \<open>foldl utf8_step UStart ''">'' = UStart\<close>
    \<open>foldl utf8_step UStart ''</d>\<newline>'' = UStart\<close>
    by simp_all
  have b: "foldl utf8_step UStart user = UStart" "foldl utf8_step UStart content = UStart"
    using u c by (simp_all add: attribute_text_def character_data_def xml_chars_def)
  have n: "foldl utf8_step UStart (str_round2 second) = UStart"
    "foldl utf8_step UStart (str_int (py_int (timestamp * 1000))) = UStart"
    by (simp_all add: number_utf8_run number_chars_str_round2 number_chars_str_int)
  show ?thesis
    by (simp only: danmu_line_def xml_chars_def foldl_append a b n)
qed

lemma body_line_danmu_line:
  "comment_ok (user, content, timestamp) \<Longrightarrow>
   body_line (danmu_line second timestamp user content)"
  by (simp add: comment_ok_def body_line_def danmu_line_full danmu_line_no_cr
      danmu_line_is_comment danmu_line_xml_chars danmu_line_xml_run)

text \<open>What the check accepts and what it refuses, on small texts.\<close>

lemma xml_well_formed_examples:
  \<open>xml_well_formed ''<?xml version="1.0" encoding="utf-8"?><i><d a="1" b=">">x</d></i>''\<close>
  \<open>xml_well_formed (''<i>'' @ [CHR 0xE4, CHR 0xBD, CHR 0xA0] @ ''</i>\<newline>'')\<close>
  \<open>\<not> xml_well_formed ''<i>''\<close>
  \<open>\<not> xml_well_formed ''<i><d></i></d>''\<close>
  \<open>\<not> xml_well_formed ''<i a="1" a="2"></i>''\<close>
  \<open>\<not> xml_well_formed ''<i u="a"b"></i>''\<close>
  \<open>\<not> xml_well_formed ''<i>a<3</i>''\<close>
  \<open>\<not> xml_well_formed ''<i>a&b</i>''\<close>
  \<open>\<not> xml_well_formed ''<i>]]></i>''\<close>
  \<open>\<not> xml_well_formed ''<i></i>x''\<close>
  \<open>\<not> xml_well_formed (''<i>'' @ [CHR 0x01] @ ''</i>'')\<close>
  by (simp_all add: xml_well_formed_def xml_chars_def xml_eval)

subsection \<open>The file of a segment\<close>

lemma template_document: "xml_template = document_of []"
  by (simp add: xml_template_def document_of_def header_lines_def)

lemma header_xml_run:
  "foldl xml_step (Prolog True, []) (concat header_lines) = (Text 0, [''i''])"
  by (simp add: header_lines_def xml_eval)

lemma header_utf8_run: "foldl utf8_step UStart (concat header_lines) = UStart"
  by (simp add: header_lines_def)

lemma closing_xml_run: "foldl xml_step (Text 0, [''i'']) ''</i>\<newline>'' = (Epilog, [])"
  by (simp add: xml_eval)

lemma closing_utf8_run: "foldl utf8_step UStart ''</i>\<newline>'' = UStart"
  by simp

lemma body_xml_run:
  "list_all body_line ls \<Longrightarrow> foldl xml_step (Text 0, [''i'']) (concat ls) = (Text 0, [''i''])"
  by (induction ls) (simp_all add: body_line_def)

lemma body_utf8_run:
  "list_all body_line ls \<Longrightarrow> foldl utf8_step UStart (concat ls) = UStart"
  by (induction ls) (simp_all add: body_line_def xml_chars_def)

lemma document_well_formed: "list_all body_line ls \<Longrightarrow> xml_well_formed (document_of ls)"
  unfolding xml_well_formed_def xml_chars_def document_of_def concat_append foldl_append
    header_xml_run header_utf8_run
  by (simp add: body_xml_run body_utf8_run closing_xml_run closing_utf8_run
      del: foldl_Cons)

lemma document_lines:
  assumes "list_all body_line ls"
  shows "readlines (document_of ls) = header_lines @ ls @ [''</i>\<newline>'']"
  unfolding document_of_def
proof (rule readlines_concat_full)
  show "\<forall>l \<in> set (header_lines @ ls @ [''</i>\<newline>'']). full_line l \<and> CHR 0x0D \<notin> set l"
    using assms full_header full_close by (auto simp: list_all_iff body_line_def)
qed

lemma document_complete: "list_all body_line ls \<Longrightarrow> complete_document (document_of ls)"
  unfolding complete_document_def
  by (simp add: document_lines strip_close) (simp add: header_lines_def)

lemma document_comment_lines:
  "list_all body_line ls \<Longrightarrow> comment_lines (document_of ls) = ls"
proof -
  assume a: "list_all body_line ls"
  then have "filter is_comment_line ls = ls"
    by (simp add: list_all_iff body_line_def)
  then show ?thesis
    unfolding comment_lines_def document_lines [OF a]
    by (simp add: comment_flags)
qed

lemma write_danmu_document:
  assumes "segment_open f t0 s" and "disk s f = Some (document_of ls)" and "list_all body_line ls"
  shows "write_danmu lib clock user content timestamp s
           = s\<lparr>disk := (disk s)(f \<mapsto> document_of
                              (ls @ [danmu_line (timestamp - t0) timestamp user content])),
                danmu_amount := danmu_amount s + 1, last_danmu_time := timestamp\<rparr>"
  unfolding write_danmu_open_segment [OF assms(1,2)] document_lines [OF assms(3)]
    insert_after_header
  by (simp add: document_of_def)

lemma write_all_document:
  assumes "segment_open f t0 s" and "disk s f = Some (document_of ls)"
    and "list_all body_line ls" and "list_all comment_ok cs"
  shows "segment_open f t0 (write_all lib clock cs s)
       \<and> disk (write_all lib clock cs s) f = Some (document_of (ls @ map (line_of t0) cs))
       \<and> list_all body_line (ls @ map (line_of t0) cs)"
  using assms
proof (induction cs arbitrary: s ls)
  case Nil
  then show ?case by simp
next
  case (Cons c cs)
  obtain user content timestamp where c: "c = (user, content, timestamp)"
    by (cases c) auto
  from Cons.prems(4) have "comment_ok c" and rest: "list_all comment_ok cs" by simp_all
  let ?l = "danmu_line (timestamp - t0) timestamp user content"
  have l: "line_of t0 c = ?l" by (simp add: line_of_def c)
  have bl: "body_line ?l" using \<open>comment_ok c\<close> c by (simp add: body_line_danmu_line)
  let ?s = "write_danmu lib clock user content timestamp s"
  have w: "?s = s\<lparr>disk := (disk s)(f \<mapsto> document_of (ls @ [?l])),
                danmu_amount := danmu_amount s + 1, last_danmu_time := timestamp\<rparr>"
    by (rule write_danmu_document [OF Cons.prems(1-3)])
  have 1: "segment_open f t0 ?s" using Cons.prems(1) by (simp add: w segment_open_def)
  have 2: "disk ?s f = Some (document_of (ls @ [?l]))" by (simp add: w)
  have 3: "list_all body_line (ls @ [?l])" using Cons.prems(3) bl by simp
  from Cons.IH [OF 1 2 3 rest] show ?case by (simp add: c line_of_def)
qed

lemma created_eq:
  "created = started\<lparr>current_segment_file := Some ''v.xml'',
                     disk := [''v.xml'' \<mapsto> xml_template],
                     segment_start_time := Some 1005, segment_index := Some 1\<rparr>"
  by (simp add: created_def open_output_started)

lemma segment_open_created: "segment_open ''v.xml'' 1005 created"
  by (simp add: created_eq segment_open_def)

lemma disk_created: "disk created ''v.xml'' = Some xml_template"
  by (simp add: created_eq)

lemma line_unescaped_eq: \<open>danmu_line 5 1010 ''a"b'' ''x<y&z'' = line_unescaped\<close>
  by (simp add: danmu_line_def str_round2_def round_half_even_def str_int_def py_int_def
      digits.simps line_unescaped_def)

lemma recording_document: "disk recording ''v.xml'' = Some (document_of [line_alice])"
  by (simp add: recording_fields document_of_def)

lemma body_line_alice: "body_line line_alice"
  using body_line_danmu_line [of "''alice''" "''hi''" 1005 0]
  by (simp add: line_segment comment_ok_def no_linebreak_def attribute_text_def
      character_data_def xml_chars_def)

lemma alice_xml_run: "foldl xml_step (Text 0, [''i'']) line_alice = (Text 0, [''i''])"
  using body_line_alice by (simp add: body_line_def)

lemma unescaped_xml_run: "foldl xml_step (Text 0, [''i'']) line_unescaped = (Malformed, [''i''])"
  by (simp add: line_unescaped_def xml_eval)

lemma malformed_run: "foldl xml_step (Malformed, stack) t = (Malformed, stack)"
  by (induction t) simp_all

text \<open>
  C3.  The claim: after every append to an open segment the file parses as a complete
  well-formed XML document with exactly one comment line more.  The user name and
  the content are written as they arrive (line 372), with nothing escaped.  So a
  content with a line break is read back as two lines: the file of \<open>recording\<close> has
  one comment line, and after the comment of \<open>bob\<close> with the content \<open>x\<close>, line
  feed, \<open><d y\<close> it has three.  And a user name with a double quote or a content with
  \<open><\<close> or \<open>&\<close> leaves a file that is not XML: the file of \<open>recording\<close> is
  well-formed, and after the comment of the user \<open>a"b\<close> with the content \<open>x<y&z\<close>
  it is not, the quote ending the attribute value and \<open><y&\<close> starting a tag that
  is none.
\<close>

theorem append_of_unescaped_text_breaks_document:
  \<open>length (comment_lines (the (disk recording ''v.xml''))) = 1
   \<and> length (comment_lines (the (disk
        (write_danmu example_lib 1005 ''bob'' ''x\<newline>  <d y'' 1010 recording) ''v.xml''))) = 3
   \<and> xml_well_formed (the (disk recording ''v.xml''))
   \<and> \<not> xml_well_formed (the (disk
        (write_danmu example_lib 1005 ''a"b'' ''x<y&z'' 1010 recording) ''v.xml''))\<close>
proof -
  let ?T1 = "concat (header_lines @ [line_alice, ''</i>\<newline>''])"
  let ?T2 = "concat (header_lines @ [line_alice, line_split1, line_split2, ''</i>\<newline>''])"
  let ?T3 = "concat (header_lines @ [line_alice, line_unescaped, ''</i>\<newline>''])"
  have a: "comment_lines ?T1 = [line_alice]"
    unfolding comment_lines_def recording_lines by (simp add: comment_flags)
  have ins: "insert_danmu (header_lines @ [line_alice] @ [''</i>\<newline>'']) l
        = header_lines @ [line_alice] @ [l, ''</i>\<newline>'']" for l
    by (rule insert_after_header)
  have "concat (insert_danmu (readlines ?T1)
                  (danmu_line (1010 - 1005) 1010 ''bob'' ''x\<newline>  <d y'')) = ?T2"
    unfolding recording_lines using ins [of "line_split1 @ line_split2"] by (simp add: line_bad)
  then have w: "disk (write_danmu example_lib 1005 ''bob'' ''x\<newline>  <d y'' 1010 recording) ''v.xml''
      = Some ?T2"
    unfolding write_danmu_open_segment [OF segment_open_recording recording_fields(3)] by simp
  have r2: "readlines ?T2
              = header_lines @ [line_alice, line_split1, line_split2, ''</i>\<newline>'']"
    using full_header full_alice full_close full_split by (intro readlines_concat_full) auto
  have b: "comment_lines ?T2 = [line_alice, line_split1, line_split2]"
    unfolding comment_lines_def r2 by (simp add: comment_flags)
  have c: "xml_well_formed ?T1"
    using document_well_formed [of "[line_alice]"] body_line_alice
    by (simp add: document_of_def)
  have \<open>concat (insert_danmu (readlines ?T1)
                  (danmu_line (1010 - 1005) 1010 ''a"b'' ''x<y&z'')) = ?T3\<close>
    unfolding recording_lines using ins [of line_unescaped] by (simp add: line_unescaped_eq)
  then have w3: \<open>disk (write_danmu example_lib 1005 ''a"b'' ''x<y&z'' 1010 recording) ''v.xml''
      = Some ?T3\<close>
    unfolding write_danmu_open_segment [OF segment_open_recording recording_fields(3)] by simp
  have "foldl xml_step (Prolog True, []) ?T3 = (Malformed, [''i''])"
    by (simp only: concat_append foldl_append header_xml_run concat.simps append_Nil2
        alice_xml_run unescaped_xml_run malformed_run)
  then have d: "\<not> xml_well_formed ?T3" by (simp add: xml_well_formed_def)
  show ?thesis
    unfolding recording_fields(3) w w3 option.sel a b using c d by simp
qed

text \<open>
  C3 as amended.  On a segment whose file has just been created, for every sequence
  of appends of comments that need no escaping (user name and content are UTF-8 text
  of characters XML allows, without line feed and carriage return, the user name
  without \<open><\<close>, \<open>&\<close> and double quote, the content without \<open><\<close>, \<open>&\<close> and \<open>]]>\<close>):
  after each append the file is a well-formed XML document with the header lines
  first and the closing tag last, its lines are the lines it had before with the line
  of the new comment placed immediately before the closing line, and it has exactly
  one comment line more.
\<close>

theorem append_keeps_document_well_formed:
  assumes "segment_open f t0 s0" and "disk s0 f = Some xml_template"
    and "list_all comment_ok cs" and "comment_ok (user, content, timestamp)"
  shows "\<exists>old new.
           disk (write_all lib clock cs s0) f = Some old
         \<and> disk (write_danmu lib clock user content timestamp (write_all lib clock cs s0)) f
             = Some new
         \<and> xml_well_formed new
         \<and> complete_document new
         \<and> readlines new = butlast (readlines old)
              @ [danmu_line (timestamp - t0) timestamp user content, last (readlines old)]
         \<and> length (comment_lines new) = length (comment_lines old) + 1"
proof -
  let ?s = "write_all lib clock cs s0"
  let ?ls = "map (line_of t0) cs"
  let ?l = "danmu_line (timestamp - t0) timestamp user content"
  have d0: "disk s0 f = Some (document_of [])" using assms(2) by (simp add: template_document)
  from write_all_document [OF assms(1) d0 _ assms(3), of lib clock]
  have seg: "segment_open f t0 ?s" and old: "disk ?s f = Some (document_of ?ls)"
    and body: "list_all body_line ?ls" by simp_all
  have new: "disk (write_danmu lib clock user content timestamp ?s) f
               = Some (document_of (?ls @ [?l]))"
    by (simp add: write_danmu_document [OF seg old body])
  have body': "list_all body_line (?ls @ [?l])"
    using body assms(4) by (simp add: body_line_danmu_line)
  have lines: "readlines (document_of (?ls @ [?l]))
                 = butlast (readlines (document_of ?ls)) @ [?l, last (readlines (document_of ?ls))]"
    by (simp add: document_lines [OF body] document_lines [OF body'] butlast_append)
  have count: "length (comment_lines (document_of (?ls @ [?l])))
                 = length (comment_lines (document_of ?ls)) + 1"
    by (simp add: document_comment_lines [OF body] document_comment_lines [OF body'])
  from old new document_well_formed [OF body'] document_complete [OF body'] lines count
  show ?thesis by blast
qed

theorem append_keeps_document_well_formed_witness:
  "segment_open ''v.xml'' 1005 created
   \<and> disk created ''v.xml'' = Some xml_template
   \<and> list_all comment_ok [(''alice'', ''hi'', 1005)]
   \<and> comment_ok ([CHR 0xE5, CHR 0xBC, CHR 0xA0], ''ok'', 1011)
   \<and> (\<exists>old new.
           disk (write_all example_lib 1005 [(''alice'', ''hi'', 1005)] created) ''v.xml'' = Some old
         \<and> disk (write_danmu example_lib 1005 [CHR 0xE5, CHR 0xBC, CHR 0xA0] ''ok'' 1011
                   (write_all example_lib 1005 [(''alice'', ''hi'', 1005)] created)) ''v.xml''
             = Some new
         \<and> xml_well_formed new
         \<and> complete_document new
         \<and> readlines new = butlast (readlines old)
              @ [danmu_line (1011 - 1005) 1011 [CHR 0xE5, CHR 0xBC, CHR 0xA0] ''ok'',
                 last (readlines old)]
         \<and> length (comment_lines new) = length (comment_lines old) + 1)"
proof -
  have 3: "list_all comment_ok [(''alice'', ''hi'', 1005)]"
    by (simp add: comment_ok_def no_linebreak_def attribute_text_def character_data_def
        xml_chars_def)
  have 4: "comment_ok ([CHR 0xE5, CHR 0xBC, CHR 0xA0], ''ok'', 1011)"
    by (simp add: comment_ok_def no_linebreak_def attribute_text_def character_data_def
        xml_chars_def)
  from append_keeps_document_well_formed [OF segment_open_created disk_created 3 4, of example_lib 1005]
    segment_open_created disk_created 3 4
  show ?thesis by blast
qed

end
